theory Spec2Isabelle
  imports Complex_Main "HOL-Library.AList"
begin

section \<open>Route landmark annotation: a model of \<^verbatim>\<open>analyzeGpxRouteWithProgress\<close>\<close>

text \<open>
  The development follows \<^verbatim>\<open>src/mapGenerator.js\<close> (the function
  \<^verbatim>\<open>analyzeGpxRouteWithProgress\<close>) and the guard of \<^verbatim>\<open>calculateStats\<close> in
  \<^verbatim>\<open>src/gpxStatsCalculator.js\<close>.

  Numbers. JavaScript numbers are IEEE doubles; here coordinates, elevations and distances
  are reals, and kilometre marks (results of \<^verbatim>\<open>Math.round\<close>) and blocks are integers.
  The one place where the source can produce \<^verbatim>\<open>NaN\<close> from well-formed data, the
  population parsed by \<^verbatim>\<open>parseInt\<close>, has a type of its own (\<open>jsnum\<close>).
  The great-circle distance \<^verbatim>\<open>haversine\<close> is floating-point trigonometry. Its reading
  in exact real arithmetic is the function \<open>haversine\<close> below; the functions that call it
  take the distance as a parameter \<open>hav\<close>, so each general result holds for every
  distance function, for \<open>haversine\<close> and for its floating-point version alike.

  Effects. The two callbacks are recorded as a trace of events, the external lookup
  (\<^verbatim>\<open>fetch\<close> and \<^verbatim>\<open>resp.json()\<close> inside \<^verbatim>\<open>try\<close>/\<^verbatim>\<open>catch\<close>) is a function from
  the bounding box to an optional payload, and an exception is a value \<open>Inl e\<close>. The
  loop over the payload's elements runs outside the \<^verbatim>\<open>try\<close>, so a payload it cannot
  iterate rejects the promise. The number of arguments a call may take is a limit of the
  JavaScript engine; it is the parameter \<open>maxArguments\<close>.
\<close>

subsection \<open>Data\<close>

record point =
  lat :: real
  lon :: real
  ele :: real

text \<open>The tags of an Overpass element that the source reads; an absent tag is \<open>None\<close>.\<close>

record tags =
  mountain_pass :: "string option"
  waterway :: "string option"
  place :: "string option"
  tag_name :: "string option"
  population :: "string option"

text \<open>
  An Overpass element: a node carries \<^verbatim>\<open>lat\<close> and \<^verbatim>\<open>lon\<close>, a way fetched with
  \<^verbatim>\<open>out center\<close> carries \<^verbatim>\<open>center: {lat, lon}\<close>. An absent property is \<open>None\<close>.
\<close>

record element =
  el_lat :: "real option"
  el_lon :: "real option"
  el_center :: "(real \<times> real) option"
  el_tags :: "tags option"

text \<open>
  The value of \<^verbatim>\<open>overpassResult.elements\<close> when it is truthy: something
  \<^verbatim>\<open>for ... of\<close> can iterate, whose members are elements or \<^verbatim>\<open>null\<close> (\<open>None\<close>), or
  something it cannot iterate (a number, a plain object). A member that is not an object
  reads as an element without tags.
\<close>

datatype elementsValue = NotIterable | Elements "element option list"

text \<open>
  The parsed response: \<^verbatim>\<open>overpassResult.elements\<close> is \<open>None\<close> when it is absent or
  falsy.
\<close>

record payload =
  elements :: "elementsValue option"

datatype ftype = Pass | River | Town

record entry =
  type :: ftype
  name :: string

datatype jsnum = NaN | Num int

datatype error = TypeError | RangeError | NotEnoughTrackPoints

datatype event = Progress nat nat | Done "(int \<times> entry) list"

type_synonym distance = "real \<Rightarrow> real \<Rightarrow> real \<Rightarrow> real \<Rightarrow> real"

subsection \<open>JavaScript primitives\<close>

text \<open>\<^verbatim>\<open>Math.round\<close> rounds to the nearest integer, halves upwards.\<close>

definition Math_round :: "real \<Rightarrow> int" where
  "Math_round x = \<lfloor>x + 1 / 2\<rfloor>"

text \<open>\<^verbatim>\<open>Math.atan2(y, x)\<close>: the angle of the point \<open>(x, y)\<close>, in \<open>(-\<pi>, \<pi>]\<close>.\<close>

definition Math_atan2 :: "real \<Rightarrow> real \<Rightarrow> real" where
  "Math_atan2 y x =
     (if 0 < x then arctan (y / x)
      else if x < 0 then (if 0 \<le> y then arctan (y / x) + pi else arctan (y / x) - pi)
      else if 0 < y then pi / 2
      else if y < 0 then - pi / 2
      else 0)"

text \<open>The function \<^verbatim>\<open>haversine\<close> (lines 290-299), in kilometres.\<close>

definition haversine :: distance where
  "haversine lat1 lon1 lat2 lon2 =
     (let R = 6371;
          dLat = (lat2 - lat1) * pi / 180;
          dLon = (lon2 - lon1) * pi / 180;
          a = sin (dLat / 2) * sin (dLat / 2) +
              cos (lat1 * pi / 180) * cos (lat2 * pi / 180) * sin (dLon / 2) * sin (dLon / 2);
          c = 2 * Math_atan2 (sqrt a) (sqrt (1 - a))
      in R * c)"

text \<open>Truthiness of an optional number: \<^verbatim>\<open>undefined\<close> and \<^verbatim>\<open>0\<close> are falsy.\<close>

definition truthy :: "real option \<Rightarrow> bool" where
  "truthy v = (case v of None \<Rightarrow> False | Some x \<Rightarrow> x \<noteq> 0)"

text \<open>\<^verbatim>\<open>a || b\<close> on optional numbers.\<close>

definition js_or :: "real option \<Rightarrow> real option \<Rightarrow> real option" where
  "js_or a b = (if truthy a then a else b)"

text \<open>\<^verbatim>\<open>s || d\<close> on an optional string: \<^verbatim>\<open>undefined\<close> and the empty string are falsy.\<close>

definition str_or :: "string option \<Rightarrow> string \<Rightarrow> string" where
  "str_or s d = (case s of None \<Rightarrow> d | Some t \<Rightarrow> if t = [] then d else t)"

text \<open>\<^verbatim>\<open>toLowerCase\<close> on the ASCII letters.\<close>

definition toLowerChar :: "char \<Rightarrow> char" where
  "toLowerChar c =
     (case map_of (zip ''ABCDEFGHIJKLMNOPQRSTUVWXYZ'' ''abcdefghijklmnopqrstuvwxyz'') c of
        None \<Rightarrow> c
      | Some l \<Rightarrow> l)"

definition toLowerCase :: "string \<Rightarrow> string" where
  "toLowerCase s = map toLowerChar s"

text \<open>\<^verbatim>\<open>s.includes(sub)\<close>: \<open>sub\<close> occurs in \<open>s\<close> as a contiguous substring.\<close>

fun str_includes :: "string \<Rightarrow> string \<Rightarrow> bool" where
  "str_includes [] sub = (sub = [])"
| "str_includes (c # cs) sub = (take (length sub) (c # cs) = sub \<or> str_includes cs sub)"

text \<open>The regular expression \<^verbatim>\<open>\D\<close> matches every character but the ten ASCII digits.\<close>

definition digitValue :: "char \<Rightarrow> int option" where
  "digitValue c = map_of (zip ''0123456789'' [0, 1, 2, 3, 4, 5, 6, 7, 8, 9]) c"

definition stripNonDigits :: "string \<Rightarrow> string" where
  "stripNonDigits s = filter (\<lambda>c. digitValue c \<noteq> None) s"

text \<open>
  \<^verbatim>\<open>parseInt\<close> on a string of digits: the decimal value, and \<^verbatim>\<open>NaN\<close> on the empty
  string. (The source rounds a value beyond \<open>2^53\<close> to a double; here it stays exact.)
\<close>

fun decimal :: "int \<Rightarrow> string \<Rightarrow> int" where
  "decimal acc [] = acc"
| "decimal acc (c # cs) =
     decimal (10 * acc + (case digitValue c of None \<Rightarrow> 0 | Some d \<Rightarrow> d)) cs"

definition parseInt :: "string \<Rightarrow> jsnum" where
  "parseInt s = (if s = [] then NaN else Num (decimal 0 s))"

text \<open>\<^verbatim>\<open>a > b\<close> on numbers: every comparison with \<^verbatim>\<open>NaN\<close> is false.\<close>

fun js_gt :: "jsnum \<Rightarrow> jsnum \<Rightarrow> bool" where
  "js_gt (Num a) (Num b) = (b < a)"
| "js_gt _ _ = False"

text \<open>The key \<^verbatim>\<open>entry.type + '|' + entry.name\<close> of the set \<^verbatim>\<open>seen\<close>.\<close>

fun typeString :: "ftype \<Rightarrow> string" where
  "typeString Pass = ''pass''"
| "typeString River = ''river''"
| "typeString Town = ''town''"

definition seenKey :: "entry \<Rightarrow> string" where
  "seenKey e = typeString (type e) @ ''|'' @ name e"

text \<open>\<^verbatim>\<open>entry.name.toLowerCase().includes('unnamed')\<close>\<close>

definition unnamed :: "entry \<Rightarrow> bool" where
  "unnamed e = str_includes (toLowerCase (name e)) ''unnamed''"

subsection \<open>Distance sampler (lines 305-315)\<close>

record sampler =
  kmMarkers :: "int list"
  markerIndices :: "nat list"
  cumDist :: real

definition SAMPLE_EVERY_KM :: real where
  "SAMPLE_EVERY_KM = 1"

text \<open>One iteration of the loop over \<open>i = 1, ..., points.length - 1\<close>.\<close>

definition sampleStep :: "distance \<Rightarrow> point list \<Rightarrow> sampler \<Rightarrow> nat \<Rightarrow> sampler" where
  "sampleStep hav points s i =
     (let p = points ! (i - 1);
          q = points ! i;
          cum = cumDist s + hav (lat p) (lon p) (lat q) (lon q)
      in if real_of_int (last (kmMarkers s)) + SAMPLE_EVERY_KM \<le> cum
         then \<lparr>kmMarkers = kmMarkers s @ [Math_round cum],
               markerIndices = markerIndices s @ [i],
               cumDist = cum\<rparr>
         else s\<lparr>cumDist := cum\<rparr>)"

definition sampleMarkers :: "distance \<Rightarrow> point list \<Rightarrow> sampler" where
  "sampleMarkers hav points =
     foldl (sampleStep hav points)
       \<lparr>kmMarkers = [0], markerIndices = [0], cumDist = 0\<rparr>
       [1..<length points]"

subsection \<open>Bounding box and feature lookup (lines 316-340)\<close>

text \<open>
  \<^verbatim>\<open>points[i].lat\<close> throws a \<^verbatim>\<open>TypeError\<close> when \<open>i\<close> is not an index of
  \<open>points\<close>; marker 0 always has index 0, so this happens on the empty track.
  \<^verbatim>\<open>Math.min(...xs)\<close> passes one argument per marker and throws a \<^verbatim>\<open>RangeError\<close>
  when there are more markers than a call may take arguments.
\<close>

definition boundingBox ::
  "nat \<Rightarrow> point list \<Rightarrow> nat list \<Rightarrow> error + (real \<times> real \<times> real \<times> real)" where
  "boundingBox maxArguments points idxs =
     (if list_ex (\<lambda>i. length points \<le> i) idxs then Inl TypeError
      else if maxArguments < length idxs then Inl RangeError
      else
        let lats = map (\<lambda>i. lat (points ! i)) idxs;
            lons = map (\<lambda>i. lon (points ! i)) idxs
        in Inr (Min (set lats) - 0.01, Min (set lons) - 0.01,
                Max (set lats) + 0.01, Max (set lons) + 0.01))"

definition tagIs :: "string option \<Rightarrow> string \<Rightarrow> bool" where
  "tagIs t s = (t = Some s)"

text \<open>
  The loop that sorts the elements into passes, rivers and towns, in encounter order.
  Reading \<^verbatim>\<open>el.tags\<close> of a \<^verbatim>\<open>null\<close> member throws a \<^verbatim>\<open>TypeError\<close>, which ends the
  whole computation, so its place in the list does not matter.
\<close>

fun partitionElements ::
  "element option list \<Rightarrow> error + (element list \<times> element list \<times> element list)" where
  "partitionElements [] = Inr ([], [], [])"
| "partitionElements (None # els) = Inl TypeError"
| "partitionElements (Some el # els) =
     (case partitionElements els of
        Inl e \<Rightarrow> Inl e
      | Inr (passes, rivers, towns) \<Rightarrow>
          (case el_tags el of
             None \<Rightarrow> Inr (passes, rivers, towns)
           | Some t \<Rightarrow>
               if tagIs (mountain_pass t) ''yes'' then Inr (el # passes, rivers, towns)
               else if tagIs (waterway t) ''river'' then Inr (passes, el # rivers, towns)
               else if tagIs (place t) ''town'' \<or> tagIs (place t) ''city''
                       \<or> tagIs (place t) ''village''
                    then Inr (passes, rivers, el # towns)
               else Inr (passes, rivers, towns)))"

text \<open>
  Lines 333-340: nothing to do when the result or its \<^verbatim>\<open>elements\<close> is falsy; a
  \<^verbatim>\<open>TypeError\<close> when \<^verbatim>\<open>elements\<close> cannot be iterated.
\<close>

definition features ::
  "payload option \<Rightarrow> error + (element list \<times> element list \<times> element list)" where
  "features overpassResult =
     (case overpassResult of
        None \<Rightarrow> Inr ([], [], [])
      | Some r \<Rightarrow>
          (case elements r of
             None \<Rightarrow> Inr ([], [], [])
           | Some NotIterable \<Rightarrow> Inl TypeError
           | Some (Elements els) \<Rightarrow> partitionElements els))"

subsection \<open>Marker classifier (lines 341-402)\<close>

fun isPeakLoop :: "point list \<Rightarrow> nat \<Rightarrow> real \<Rightarrow> nat list \<Rightarrow> bool" where
  "isPeakLoop points idx thisEle [] = True"
| "isPeakLoop points idx thisEle (offset # rest) =
     (if offset \<le> idx \<and> thisEle < ele (points ! (idx - offset)) then False
      else if idx + offset < length points \<and> thisEle < ele (points ! (idx + offset))
           then False
      else isPeakLoop points idx thisEle rest)"

definition isPeak :: "point list \<Rightarrow> nat \<Rightarrow> bool" where
  "isPeak points idx =
     (let window = 2; thisEle = ele (points ! idx)
      in isPeakLoop points idx thisEle [1..<window + 1])"

text \<open>
  The position a nearest-feature loop reads from an element: a pass or a town uses
  \<^verbatim>\<open>el.lat\<close> and \<^verbatim>\<open>el.lon\<close>, a river uses
  \<^verbatim>\<open>el.lat || (el.center && el.center.lat)\<close> and the same for the longitude.
\<close>

definition nodePosition :: "element \<Rightarrow> real option \<times> real option" where
  "nodePosition el = (el_lat el, el_lon el)"

definition riverPosition :: "element \<Rightarrow> real option \<times> real option" where
  "riverPosition el =
     (js_or (el_lat el) (map_option fst (el_center el)),
      js_or (el_lon el) (map_option snd (el_center el)))"

text \<open>
  The three nearest-feature loops share their body; the state is the pair
  \<^verbatim>\<open>(nearest, nearestDist)\<close>, which starts as \<^verbatim>\<open>(null, 1.0)\<close>.
\<close>

fun nearestLoop ::
  "distance \<Rightarrow> (element \<Rightarrow> real option \<times> real option) \<Rightarrow> real \<Rightarrow> real \<Rightarrow>
   element list \<Rightarrow> element option \<Rightarrow> real \<Rightarrow> element option" where
  "nearestLoop hav pos la lo [] nearest nearestDist = nearest"
| "nearestLoop hav pos la lo (el # els) nearest nearestDist =
     (case pos el of
        (Some a, Some b) \<Rightarrow>
          if a \<noteq> 0 \<and> b \<noteq> 0 then
            (let d = hav la lo a b
             in if d < nearestDist then nearestLoop hav pos la lo els (Some el) d
                else nearestLoop hav pos la lo els nearest nearestDist)
          else nearestLoop hav pos la lo els nearest nearestDist
      | _ \<Rightarrow> nearestLoop hav pos la lo els nearest nearestDist)"

definition nearest ::
  "distance \<Rightarrow> (element \<Rightarrow> real option \<times> real option) \<Rightarrow> real \<Rightarrow> real \<Rightarrow>
   element list \<Rightarrow> element option" where
  "nearest hav pos la lo els = nearestLoop hav pos la lo els None 1.0"

text \<open>
  \<^verbatim>\<open>el.tags.name || placeholder\<close>. Every element of the three collections carries
  tags (lemma \<open>partitionElements_tags\<close>), so the \<open>None\<close> case is never reached.
\<close>

definition featureName :: "element \<Rightarrow> string \<Rightarrow> string" where
  "featureName el placeholder =
     (case el_tags el of
        None \<Rightarrow> placeholder
      | Some t \<Rightarrow> str_or (tag_name t) placeholder)"

definition classifyMarker ::
  "distance \<Rightarrow> point list \<Rightarrow> element list \<Rightarrow> element list \<Rightarrow> element list \<Rightarrow>
   nat \<Rightarrow> entry option" where
  "classifyMarker hav points passes rivers towns idx =
     (let la = lat (points ! idx); lo = lon (points ! idx)
      in case nearest hav nodePosition la lo passes of
           Some nearestPass \<Rightarrow>
             Some \<lparr>type = Pass, name = featureName nearestPass ''Unnamed Pass''\<rparr>
         | None \<Rightarrow>
             (case nearest hav riverPosition la lo rivers of
                Some nearestRiver \<Rightarrow>
                  Some \<lparr>type = River, name = featureName nearestRiver ''Unnamed River''\<rparr>
              | None \<Rightarrow>
                  (case nearest hav nodePosition la lo towns of
                     Some nearestTown \<Rightarrow>
                       if isPeak points idx
                       then Some \<lparr>type = Pass,
                                  name = featureName nearestTown ''Unnamed Town (Peak)''\<rparr>
                       else Some \<lparr>type = Town,
                                  name = featureName nearestTown ''Unnamed Town''\<rparr>
                   | None \<Rightarrow> None)))"

text \<open>
  The loop over the markers: the state is \<^verbatim>\<open>summary\<close> and the trace of progress
  calls. Every branch of the source's body reports \<open>(m + 1, kmMarkers.length)\<close>
  when a progress callback was given.
\<close>

definition classifyStep ::
  "distance \<Rightarrow> point list \<Rightarrow> element list \<Rightarrow> element list \<Rightarrow> element list \<Rightarrow>
   int list \<Rightarrow> nat list \<Rightarrow> bool \<Rightarrow>
   (int \<rightharpoonup> entry) \<times> event list \<Rightarrow> nat \<Rightarrow> (int \<rightharpoonup> entry) \<times> event list" where
  "classifyStep hav points passes rivers towns kms idxs progressCallback st m =
     (let summary = fst st; trace = snd st;
          report = (if progressCallback then [Progress (m + 1) (length kms)] else [])
      in case classifyMarker hav points passes rivers towns (idxs ! m) of
           None \<Rightarrow> (summary, trace @ report)
         | Some e \<Rightarrow> (summary(kms ! m \<mapsto> e), trace @ report))"

definition classifyAll ::
  "distance \<Rightarrow> point list \<Rightarrow> element list \<Rightarrow> element list \<Rightarrow> element list \<Rightarrow>
   int list \<Rightarrow> nat list \<Rightarrow> bool \<Rightarrow> (int \<rightharpoonup> entry) \<times> event list" where
  "classifyAll hav points passes rivers towns kms idxs progressCallback =
     foldl (classifyStep hav points passes rivers towns kms idxs progressCallback)
       (Map.empty, []) [0..<length kms]"

subsection \<open>Block deduplication filter (lines 403-460)\<close>

text \<open>
  The state shared by the three passes: the object \<^verbatim>\<open>filtered\<close> (an association list
  with distinct keys), the object \<^verbatim>\<open>blockHas\<close> (the set of blocks set to true) and the
  set \<^verbatim>\<open>seen\<close>.
\<close>

record fstate =
  filtered :: "(int \<times> entry) list"
  blockHas :: "int set"
  seen :: "string set"

definition initialState :: fstate where
  "initialState = \<lparr>filtered = [], blockHas = {}, seen = {}\<rparr>"

text \<open>\<^verbatim>\<open>Math.floor(km / 10)\<close> on an integer \<open>km\<close>.\<close>

definition blockOf :: "int \<Rightarrow> int" where
  "blockOf km = km div 10"

definition accept :: "int \<Rightarrow> entry \<Rightarrow> fstate \<Rightarrow> fstate" where
  "accept km e st =
     \<lparr>filtered = AList.update km e (filtered st),
      blockHas = insert (blockOf km) (blockHas st),
      seen = insert (seenKey e) (seen st)\<rparr>"

definition pass1Step :: "(int \<rightharpoonup> entry) \<Rightarrow> fstate \<Rightarrow> int \<Rightarrow> fstate" where
  "pass1Step summary st km =
     (case summary km of
        None \<Rightarrow> st
      | Some e \<Rightarrow>
          if unnamed e then st
          else if blockOf km \<in> blockHas st then st
          else if type e = Pass then accept km e st
          else st)"

definition pass1 :: "(int \<rightharpoonup> entry) \<Rightarrow> int list \<Rightarrow> fstate \<Rightarrow> fstate" where
  "pass1 summary kms st = foldl (pass1Step summary) st kms"

definition pass2Step :: "(int \<rightharpoonup> entry) \<Rightarrow> fstate \<Rightarrow> int \<Rightarrow> fstate" where
  "pass2Step summary st km =
     (case summary km of
        None \<Rightarrow> st
      | Some e \<Rightarrow>
          if type e \<noteq> River then st
          else if unnamed e then st
          else if blockOf km \<in> blockHas st then st
          else if seenKey e \<in> seen st then st
          else accept km e st)"

definition pass2 :: "(int \<rightharpoonup> entry) \<Rightarrow> int list \<Rightarrow> fstate \<Rightarrow> fstate" where
  "pass2 summary kms st = foldl (pass2Step summary) st kms"

text \<open>A value of \<^verbatim>\<open>blockTowns\<close>: \<^verbatim>\<open>{ km, entry, pop }\<close>.\<close>

record blockTown =
  bt_km :: int
  bt_entry :: entry
  bt_pop :: jsnum

text \<open>
  \<^verbatim>\<open>towns.find(t => (t.tags && (t.tags.name || 'Unnamed Town') === entry.name))\<close>
\<close>

definition findTown :: "element list \<Rightarrow> string \<Rightarrow> element option" where
  "findTown towns n =
     find (\<lambda>t. case el_tags t of
                 None \<Rightarrow> False
               | Some tg \<Rightarrow> str_or (tag_name tg) ''Unnamed Town'' = n) towns"

text \<open>
  \<^verbatim>\<open>el && el.tags && el.tags.population
     ? parseInt(el.tags.population.replace(/\D/g, '')) : 0\<close>;
  the empty string is falsy.
\<close>

definition populationOf :: "element option \<Rightarrow> jsnum" where
  "populationOf el =
     (case el of
        None \<Rightarrow> Num 0
      | Some e \<Rightarrow>
          (case el_tags e of
             None \<Rightarrow> Num 0
           | Some tg \<Rightarrow>
               (case population tg of
                  None \<Rightarrow> Num 0
                | Some s \<Rightarrow> if s = [] then Num 0 else parseInt (stripNonDigits s))))"

definition collectStep ::
  "element list \<Rightarrow> (int \<rightharpoonup> entry) \<Rightarrow> int set \<Rightarrow>
   (int \<times> blockTown) list \<Rightarrow> int \<Rightarrow> (int \<times> blockTown) list" where
  "collectStep towns summary claimed blockTowns km =
     (case summary km of
        None \<Rightarrow> blockTowns
      | Some e \<Rightarrow>
          if type e \<noteq> Town then blockTowns
          else if unnamed e then blockTowns
          else if blockOf km \<in> claimed then blockTowns
          else
            (let pop = populationOf (findTown towns (name e));
                 candidate = \<lparr>bt_km = km, bt_entry = e, bt_pop = pop\<rparr>
             in case map_of blockTowns (blockOf km) of
                  None \<Rightarrow> AList.update (blockOf km) candidate blockTowns
                | Some cur \<Rightarrow>
                    if js_gt pop (bt_pop cur)
                    then AList.update (blockOf km) candidate blockTowns
                    else blockTowns))"

definition collectTowns ::
  "element list \<Rightarrow> (int \<rightharpoonup> entry) \<Rightarrow> int set \<Rightarrow> int list \<Rightarrow> (int \<times> blockTown) list" where
  "collectTowns towns summary claimed kms =
     foldl (collectStep towns summary claimed) [] kms"

text \<open>
  \<^verbatim>\<open>for (let block in blockTowns)\<close> visits integer keys in ascending order.
\<close>

definition forIn :: "(int \<times> 'a) list \<Rightarrow> (int \<times> 'a) list" where
  "forIn obj = sort_key fst obj"

definition acceptStep :: "fstate \<Rightarrow> int \<times> blockTown \<Rightarrow> fstate" where
  "acceptStep st bw =
     (let block = fst bw; w = snd bw
      in if block \<in> blockHas st then st
         else
           (let st' = (if seenKey (bt_entry w) \<in> seen st then st
                       else st\<lparr>filtered := AList.update (bt_km w) (bt_entry w) (filtered st),
                               seen := insert (seenKey (bt_entry w)) (seen st)\<rparr>)
            in st'\<lparr>blockHas := insert block (blockHas st')\<rparr>))"

definition pass3 :: "element list \<Rightarrow> (int \<rightharpoonup> entry) \<Rightarrow> int list \<Rightarrow> fstate \<Rightarrow> fstate" where
  "pass3 towns summary kms st =
     foldl acceptStep st (forIn (collectTowns towns summary (blockHas st) kms))"

subsection \<open>Final proximity collapse (lines 461-471)\<close>

text \<open>
  The loop \<open>for i = 1, ..., length - 1\<close> that adds \<open>filteredKms[i - 1]\<close> to
  \<^verbatim>\<open>toRemove\<close> when \<open>filteredKms[i] - filteredKms[i - 1] < 5\<close>.
\<close>

fun toRemove :: "int list \<Rightarrow> int list" where
  "toRemove (a # b # ks) =
     (if b - a < 5 then a # toRemove (b # ks) else toRemove (b # ks))"
| "toRemove ks = []"

definition filteredKms :: "(int \<times> entry) list \<Rightarrow> int list" where
  "filteredKms f = sort (map fst f)"

definition collapse :: "(int \<times> entry) list \<Rightarrow> (int \<times> entry) list" where
  "collapse f = foldl (\<lambda>g km. AList.delete km g) f (toRemove (filteredKms f))"

subsection \<open>The engine\<close>

definition filterPipeline ::
  "element list \<Rightarrow> (int \<rightharpoonup> entry) \<Rightarrow> int list \<Rightarrow> (int \<times> entry) list" where
  "filterPipeline towns summary kms =
     collapse (filtered (pass3 towns summary kms
                          (pass2 summary kms (pass1 summary kms initialState))))"

text \<open>
  \<open>points\<close> is the parsed track, \<open>lookup\<close> the external feature lookup
  (\<open>None\<close> when \<^verbatim>\<open>fetch\<close> or \<^verbatim>\<open>resp.json()\<close> throws or yields \<^verbatim>\<open>null\<close>), and the
  two flags say whether a callback was given. The result is the trace of callback
  invocations, or the exception that rejects the promise.
\<close>

definition analyzeGpxRouteWithProgress ::
  "distance \<Rightarrow> nat \<Rightarrow> ((real \<times> real \<times> real \<times> real) \<Rightarrow> payload option) \<Rightarrow>
   point list \<Rightarrow> bool \<Rightarrow> bool \<Rightarrow> error + event list" where
  "analyzeGpxRouteWithProgress hav maxArguments lookup points progressCallback doneCallback =
     (let s = sampleMarkers hav points;
          kms = kmMarkers s;
          idxs = markerIndices s
      in case boundingBox maxArguments points idxs of
           Inl e \<Rightarrow> Inl e
         | Inr bbox \<Rightarrow>
             (case features (lookup bbox) of
                Inl e \<Rightarrow> Inl e
              | Inr (passes, rivers, towns) \<Rightarrow>
                  (let (summary, trace) =
                         classifyAll hav points passes rivers towns kms idxs progressCallback;
                       result = filterPipeline towns summary kms
                   in Inr (trace @ (if doneCallback then [Done result] else [])))))"

subsection \<open>The guard of \<^verbatim>\<open>calculateStats\<close> (gpxStatsCalculator.js, lines 17-36)\<close>

text \<open>
  \<^verbatim>\<open>calculateStats\<close> throws on fewer than two track points and otherwise combines
  three statistics, which are display code and parameters here.
\<close>

definition calculateStats ::
  "('p list \<Rightarrow> 't) \<Rightarrow> ('p list \<Rightarrow> 't \<Rightarrow> 'd) \<Rightarrow> ('p list \<Rightarrow> 'e) \<Rightarrow> 'p list \<Rightarrow>
   error + ('t \<times> 'd \<times> 'e)" where
  "calculateStats calculateTimeStats calculateDistanceAndRideTime calculateElevationStats trkpts =
     (if length trkpts < 2 then Inl NotEnoughTrackPoints
      else
        let timeStats = calculateTimeStats trkpts;
            distanceAndTimeStats = calculateDistanceAndRideTime trkpts timeStats;
            elevationStats = calculateElevationStats trkpts
        in Inr (timeStats, distanceAndTimeStats, elevationStats))"

subsection \<open>Auxiliary definitions\<close>

text \<open>The invariant of the sampler's loop before iteration \<open>n\<close>.\<close>

definition samplerInv :: "sampler \<Rightarrow> nat \<Rightarrow> bool" where
  "samplerInv s n =
     (kmMarkers s \<noteq> [] \<and> hd (kmMarkers s) = 0 \<and> hd (markerIndices s) = 0 \<and>
      length (kmMarkers s) = length (markerIndices s) \<and>
      sorted_wrt (<) (kmMarkers s) \<and> sorted_wrt (<) (markerIndices s) \<and>
      list_all (\<lambda>j. j < n) (markerIndices s))"

text \<open>A track with the given elevations (positions do not matter for peaks).\<close>

definition elevationProfile :: "real list \<Rightarrow> point list" where
  "elevationProfile es = map (\<lambda>e. \<lparr>lat = 0, lon = 0, ele = e\<rparr>) es"

text \<open>
  A lookup result that the loop over the elements can read: no result, no elements, or
  a list without \<^verbatim>\<open>null\<close> members.
\<close>

definition wellFormed :: "payload option \<Rightarrow> bool" where
  "wellFormed overpassResult =
     (case overpassResult of
        None \<Rightarrow> True
      | Some r \<Rightarrow>
          (case elements r of
             None \<Rightarrow> True
           | Some NotIterable \<Rightarrow> False
           | Some (Elements els) \<Rightarrow> list_all (\<lambda>el. el \<noteq> None) els))"

text \<open>The progress reports for the markers \<open>ms\<close> out of \<open>n\<close>.\<close>

definition progressTrace :: "bool \<Rightarrow> nat \<Rightarrow> nat list \<Rightarrow> event list" where
  "progressTrace progressCallback n ms =
     (if progressCallback then map (\<lambda>m. Progress (m + 1) n) ms else [])"

text \<open>
  A position that a nearest-feature loop accepts: both coordinates present and non-zero.
\<close>

definition usable :: "real option \<times> real option \<Rightarrow> bool" where
  "usable p = (truthy (fst p) \<and> truthy (snd p))"

text \<open>
  The invariant of the three passes: \<^verbatim>\<open>seen\<close> holds exactly the keys of the accepted
  entries, and the block of every accepted kilometre mark is claimed.
\<close>

definition filterInv :: "fstate \<Rightarrow> bool" where
  "filterInv st =
     (seen st = seenKey ` snd ` set (filtered st) \<and>
      list_all (\<lambda>p. blockOf (fst p) \<in> blockHas st) (filtered st))"

text \<open>What the collecting loop of pass 3 guarantees about \<^verbatim>\<open>blockTowns\<close>.\<close>

definition collectInv :: "(int \<rightharpoonup> entry) \<Rightarrow> int set \<Rightarrow> (int \<times> blockTown) list \<Rightarrow> bool" where
  "collectInv summary claimed bts =
     (distinct (map fst bts) \<and>
      list_all (\<lambda>p. fst p \<notin> claimed \<and> fst p = blockOf (bt_km (snd p)) \<and>
                    type (bt_entry (snd p)) = Town \<and>
                    summary (bt_km (snd p)) = Some (bt_entry (snd p)) \<and>
                    \<not> unnamed (bt_entry (snd p))) bts)"

section \<open>Great-circle distance\<close>

lemma haversine_same_point: "haversine la lo la lo = 0"
  by (simp add: haversine_def Math_atan2_def)

lemma atan2_sin_cos:
  assumes "\<bar>x\<bar> < pi / 2"
  shows "Math_atan2 (sqrt (sin x * sin x)) (sqrt (1 - sin x * sin x)) = \<bar>x\<bar>"
proof -
  have c: "0 < cos x" using assms by (intro cos_gt_zero_pi) (auto simp: abs_less_iff)
  have "1 - sin x * sin x = cos x * cos x"
    using sin_cos_squared_add [of x] by (simp add: power2_eq_square algebra_simps)
  then have s2: "sqrt (1 - sin x * sin x) = cos x"
    using c by (simp add: real_sqrt_mult_self abs_of_pos)
  have s1: "sqrt (sin x * sin x) = \<bar>sin x\<bar>" by simp
  have sa: "\<bar>sin x\<bar> = sin \<bar>x\<bar>"
  proof (cases "0 \<le> x")
    case True
    with assms have "0 \<le> sin x" by (intro sin_ge_zero) (auto simp: abs_less_iff)
    with True show ?thesis by simp
  next
    case False
    with assms have "0 \<le> sin (- x)" by (intro sin_ge_zero) (auto simp: abs_less_iff)
    with False show ?thesis by simp
  qed
  have "Math_atan2 \<bar>sin x\<bar> (cos x) = arctan (sin \<bar>x\<bar> / cos \<bar>x\<bar>)"
    using c by (simp add: Math_atan2_def sa)
  also have "\<dots> = arctan (tan \<bar>x\<bar>)" by (simp add: tan_def)
  also have "\<dots> = \<bar>x\<bar>" using assms by (intro arctan_tan) auto
  finally show ?thesis by (simp only: s1 s2)
qed

lemma haversine_meridian:
  assumes "\<bar>lat2 - lat1\<bar> < 180"
  shows "haversine lat1 lo lat2 lo = 6371 * \<bar>lat2 - lat1\<bar> * pi / 180"
proof -
  let ?x = "(lat2 - lat1) * pi / 180 / 2"
  have "\<bar>?x\<bar> = \<bar>lat2 - lat1\<bar> * pi / 360" by (simp add: abs_mult)
  also have "\<dots> < 180 * pi / 360" using assms by (simp add: field_simps)
  finally have x: "\<bar>?x\<bar> < pi / 2" by simp
  have "haversine lat1 lo lat2 lo =
          6371 * (2 * Math_atan2 (sqrt (sin ?x * sin ?x)) (sqrt (1 - sin ?x * sin ?x)))"
    by (simp add: haversine_def Let_def)
  also have "\<dots> = 6371 * (2 * \<bar>?x\<bar>)" by (simp only: atan2_sin_cos [OF x])
  also have "\<dots> = 6371 * \<bar>lat2 - lat1\<bar> * pi / 180" by (simp add: abs_mult)
  finally show ?thesis .
qed

section \<open>Distance sampler\<close>

lemma strict_sorted_le_last:
  "sorted_wrt (<) (xs :: 'a::linorder list) \<Longrightarrow> y \<in> set xs \<Longrightarrow> y \<le> last xs"
  by (induction xs) (auto simp: less_imp_le)

lemma Math_round_above:
  "real_of_int l + 1 \<le> c \<Longrightarrow> l < Math_round c"
proof -
  assume "real_of_int l + 1 \<le> c"
  then have "of_int (l + 1) \<le> c + 1 / 2" by simp
  then have "l + 1 \<le> \<lfloor>c + 1 / 2\<rfloor>" by (simp only: le_floor_iff)
  then show ?thesis by (simp add: Math_round_def)
qed

lemma samplerInv_step:
  assumes "samplerInv s n" "n \<le> i"
  shows "samplerInv (sampleStep hav points s i) (Suc i)"
proof -
  let ?p = "points ! (i - 1)" and ?q = "points ! i"
  let ?cum = "cumDist s + hav (lat ?p) (lon ?p) (lat ?q) (lon ?q)"
  from assms have ne: "kmMarkers s \<noteq> []" "markerIndices s \<noteq> []"
    and srt: "sorted_wrt (<) (kmMarkers s)" "sorted_wrt (<) (markerIndices s)"
    and bnd: "\<forall>j\<in>set (markerIndices s). j < n"
    by (auto simp: samplerInv_def list_all_iff)
  show ?thesis
  proof (cases "real_of_int (last (kmMarkers s)) + SAMPLE_EVERY_KM \<le> ?cum")
    case True
    then have "last (kmMarkers s) < Math_round ?cum"
      by (simp add: SAMPLE_EVERY_KM_def Math_round_above)
    with srt(1) have "\<forall>y\<in>set (kmMarkers s). y < Math_round ?cum"
      using strict_sorted_le_last by fastforce
    moreover from bnd assms(2) have "\<forall>j\<in>set (markerIndices s). j < i" by auto
    ultimately show ?thesis
      using True assms ne
      by (auto simp: samplerInv_def sampleStep_def Let_def sorted_wrt_append list_all_iff)
  next
    case False
    with assms show ?thesis
      by (auto simp: samplerInv_def sampleStep_def Let_def list_all_iff)
  qed
qed

lemma samplerInv_foldl:
  "samplerInv (foldl (sampleStep hav points)
      \<lparr>kmMarkers = [0], markerIndices = [0], cumDist = 0\<rparr> [1..<n]) (max 1 n)"
proof (induction n)
  case 0
  show ?case by (simp add: samplerInv_def)
next
  case (Suc n)
  show ?case
  proof (cases "n = 0")
    case True
    then show ?thesis by (simp add: samplerInv_def)
  next
    case False
    then have "[1..<Suc n] = [1..<n] @ [n]" by simp
    moreover from False have "max 1 n \<le> n" by simp
    moreover from False have "max 1 (Suc n) = Suc n" by simp
    ultimately show ?thesis
      using samplerInv_step [OF Suc.IH, of n hav points] by simp
  qed
qed

lemma samplerInv_sampleMarkers: "samplerInv (sampleMarkers hav points) (max 1 (length points))"
  unfolding sampleMarkers_def by (rule samplerInv_foldl)

text \<open>
  Claim C9. The sampler's first marker is \<open>{cumulativeKm: 0, pointIndex: 0}\<close>, the two
  lists have the same length, and both the rounded kilometre marks and the point indices
  increase strictly along the marker list. This holds for every track (in particular for
  every track with at least two points) and every distance function.
\<close>

theorem sampler_first_and_monotone:
  "hd (kmMarkers (sampleMarkers hav points)) = 0 \<and>
   hd (markerIndices (sampleMarkers hav points)) = 0 \<and>
   kmMarkers (sampleMarkers hav points) \<noteq> [] \<and>
   length (kmMarkers (sampleMarkers hav points)) = length (markerIndices (sampleMarkers hav points)) \<and>
   sorted_wrt (<) (kmMarkers (sampleMarkers hav points)) \<and>
   sorted_wrt (<) (markerIndices (sampleMarkers hav points))"
  using samplerInv_sampleMarkers [of hav points] by (simp add: samplerInv_def)

section \<open>Peak detection\<close>

lemma window_cases:
  "(j \<noteq> idx \<and> j \<le> idx + 2 \<and> idx \<le> j + 2) =
   ((1 \<le> idx \<and> j = idx - 1) \<or> (2 \<le> idx \<and> j = idx - 2) \<or> j = idx + 1 \<or> j = idx + (2::nat))"
  by arith

lemma isPeak_unfold:
  "isPeak points idx =
    (\<not> (1 \<le> idx \<and> ele (points ! idx) < ele (points ! (idx - 1))) \<and>
     \<not> (idx + 1 < length points \<and> ele (points ! idx) < ele (points ! (idx + 1))) \<and>
     \<not> (2 \<le> idx \<and> ele (points ! idx) < ele (points ! (idx - 2))) \<and>
     \<not> (idx + 2 < length points \<and> ele (points ! idx) < ele (points ! (idx + 2))))"
proof -
  have u: "[1..<(2::nat) + 1] = [1, 2]" by (simp add: upt_rec)
  show ?thesis unfolding isPeak_def Let_def u by auto
qed

lemma isPeak_window:
  assumes "idx < length points"
  shows "isPeak points idx =
     (\<not> (\<exists>j. j < length points \<and> j \<noteq> idx \<and> j \<le> idx + 2 \<and> idx \<le> j + 2 \<and>
            ele (points ! idx) < ele (points ! j)))"
proof -
  have "(\<exists>j. j < length points \<and> j \<noteq> idx \<and> j \<le> idx + 2 \<and> idx \<le> j + 2 \<and>
            ele (points ! idx) < ele (points ! j)) =
        (\<exists>j. j < length points \<and>
           ((1 \<le> idx \<and> j = idx - 1) \<or> (2 \<le> idx \<and> j = idx - 2) \<or> j = idx + 1 \<or> j = idx + 2) \<and>
            ele (points ! idx) < ele (points ! j))"
    using window_cases by (metis (no_types, lifting))
  also have "\<dots> = ((1 \<le> idx \<and> ele (points ! idx) < ele (points ! (idx - 1))) \<or>
     (idx + 1 < length points \<and> ele (points ! idx) < ele (points ! (idx + 1))) \<or>
     (2 \<le> idx \<and> ele (points ! idx) < ele (points ! (idx - 2))) \<or>
     (idx + 2 < length points \<and> ele (points ! idx) < ele (points ! (idx + 2))))"
  proof -
    have "idx - 1 < length points" "idx - 2 < length points" using assms by arith+
    then show ?thesis by blast
  qed
  finally show ?thesis by (simp add: isPeak_unfold)
qed

text \<open>
  Claim C7. For an index \<open>idx\<close> of the track, \<open>isPeak\<close> holds exactly when no
  existing point at offset 1 or 2 on either side is strictly higher than the point at
  \<open>idx\<close>. The centre of \<open>[100,150,200,150,100]\<close> and the last index of
  \<open>[100,150,200,250,300]\<close> are peaks.
\<close>

theorem isPeak_local_window:
  "(idx < length points \<longrightarrow>
      isPeak points idx =
        (\<not> (\<exists>j. j < length points \<and> j \<noteq> idx \<and> j \<le> idx + 2 \<and> idx \<le> j + 2 \<and>
               ele (points ! idx) < ele (points ! j)))) \<and>
   isPeak (elevationProfile [100, 150, 200, 150, 100]) 2 \<and>
   isPeak (elevationProfile [100, 150, 200, 250, 300]) 4"
proof (intro conjI impI)
  show "isPeak (elevationProfile [100, 150, 200, 150, 100]) 2"
    by (simp add: isPeak_unfold elevationProfile_def)
  show "isPeak (elevationProfile [100, 150, 200, 250, 300]) 4"
    by (simp add: isPeak_unfold elevationProfile_def)
qed (rule isPeak_window)

theorem isPeak_local_window_witness:
  "(1::nat) < length (elevationProfile [100, 300, 200]) \<and>
   isPeak (elevationProfile [100, 300, 200]) 1 \<and>
   \<not> isPeak (elevationProfile [100, 300, 200]) 2 \<and>
   (\<exists>j. j < length (elevationProfile [100, 300, 200]) \<and> j \<noteq> 2 \<and> j \<le> 2 + 2 \<and> 2 \<le> j + 2 \<and>
        ele (elevationProfile [100, 300, 200] ! 2) < ele (elevationProfile [100, 300, 200] ! j))"
proof -
  have l: "(2::nat) < length (elevationProfile [100, 300, 200])"
    by (simp add: elevationProfile_def)
  have n: "\<not> isPeak (elevationProfile [100, 300, 200]) 2"
    by (simp add: isPeak_unfold elevationProfile_def)
  have p: "isPeak (elevationProfile [100, 300, 200]) 1"
    by (simp add: isPeak_unfold elevationProfile_def)
  from isPeak_local_window [of 2 "elevationProfile [100, 300, 200]"] l n
  have "\<exists>j. j < length (elevationProfile [100, 300, 200]) \<and> j \<noteq> 2 \<and> j \<le> 2 + 2 \<and> 2 \<le> j + 2 \<and>
        ele (elevationProfile [100, 300, 200] ! 2) < ele (elevationProfile [100, 300, 200] ! j)"
    by blast
  with l n p show ?thesis by (simp add: elevationProfile_def)
qed

section \<open>Final proximity collapse\<close>

lemma toRemove_iff:
  "k \<in> set (toRemove ks) \<longleftrightarrow> (\<exists>i. Suc i < length ks \<and> ks ! i = k \<and> ks ! Suc i - ks ! i < 5)"
proof (induction ks rule: toRemove.induct)
  case (1 a b ks)
  have "(\<exists>i. Suc i < length (a # b # ks) \<and> (a # b # ks) ! i = k \<and>
            (a # b # ks) ! Suc i - (a # b # ks) ! i < 5) =
        ((a = k \<and> b - a < 5) \<or>
         (\<exists>i. Suc i < length (b # ks) \<and> (b # ks) ! i = k \<and> (b # ks) ! Suc i - (b # ks) ! i < 5))"
    (is "(\<exists>i. ?P i) = (?A \<or> (\<exists>i. ?Q i))")
  proof
    assume "\<exists>i. ?P i"
    then obtain i where i: "?P i" ..
    show "?A \<or> (\<exists>i. ?Q i)"
    proof (cases i)
      case 0
      with i show ?thesis by simp
    next
      case (Suc j)
      with i have "?Q j" by simp
      then show ?thesis by blast
    qed
  next
    assume "?A \<or> (\<exists>i. ?Q i)"
    then show "\<exists>i. ?P i"
    proof
      assume ?A
      then have "?P 0" by simp
      then show ?thesis ..
    next
      assume "\<exists>i. ?Q i"
      then obtain j where "?Q j" ..
      then have "?P (Suc j)" by simp
      then show ?thesis ..
    qed
  qed
  with 1 show ?case by auto
qed simp_all

lemma toRemove_subset: "set (toRemove ks) \<subseteq> set ks"
  by (induction ks rule: toRemove.induct) auto

lemma collapse_gap:
  "sorted ks \<Longrightarrow> sorted_wrt (\<lambda>a b. a + 5 \<le> b) (filter (\<lambda>k. k \<notin> set (toRemove ks)) ks)"
proof (induction ks rule: toRemove.induct)
  case (1 a b ks)
  from "1.prems" have srt: "sorted (b # ks)" and ab: "a \<le> b" and low: "\<forall>x\<in>set (b # ks). b \<le> x"
    by auto
  let ?T = "toRemove (b # ks)"
  let ?F = "filter (\<lambda>k. k \<notin> set ?T) (b # ks)"
  show ?case
  proof (cases "b - a < 5")
    case True
    from "1.IH"(1) [OF True srt] have "sorted_wrt (\<lambda>a b. a + 5 \<le> b) ?F" .
    then have "sorted_wrt (\<lambda>a b. a + 5 \<le> b) (filter (\<lambda>k. k \<noteq> a) ?F)"
      by (rule sorted_wrt_filter)
    moreover have "filter (\<lambda>k. k \<notin> set (toRemove (a # b # ks))) (a # b # ks) =
                   filter (\<lambda>k. k \<noteq> a) ?F"
      using True by (simp add: conj_commute del: toRemove.simps(1)) (simp add: True)
    ultimately show ?thesis by simp
  next
    case False
    from "1.IH"(2) [OF False srt] have IH: "sorted_wrt (\<lambda>a b. a + 5 \<le> b) ?F" .
    have "\<forall>x\<in>set ?F. a + 5 \<le> x"
    proof
      fix x assume "x \<in> set ?F"
      then have "x \<in> set (b # ks)" by (simp del: filter.simps)
      with low have "b \<le> x" by blast
      with False show "a + 5 \<le> x" by simp
    qed
    with IH False show ?thesis by (simp del: filter.simps add: filter.simps(2) [of _ a])
  qed
qed simp_all

lemma foldl_delete:
  "foldl (\<lambda>g km. AList.delete km g) f R = filter (\<lambda>p. fst p \<notin> set R) f"
proof (induction R arbitrary: f)
  case Nil
  show ?case by simp
next
  case (Cons r R)
  have "AList.delete r f = filter (\<lambda>p. fst p \<noteq> r) f"
    by (simp add: AList.delete_eq case_prod_unfold eq_commute)
  with Cons show ?case by (simp add: conj_commute)
qed

lemma collapse_eq: "collapse f = filter (\<lambda>p. fst p \<notin> set (toRemove (filteredKms f))) f"
  by (simp add: collapse_def foldl_delete)

lemma map_fst_filter: "map fst (filter (\<lambda>p. P (fst p)) f) = filter P (map fst f)"
  by (induction f) auto

lemma filteredKms_collapse:
  "filteredKms (collapse f) = filter (\<lambda>k. k \<notin> set (toRemove (filteredKms f))) (filteredKms f)"
proof -
  have "filteredKms (collapse f) = sort (filter (\<lambda>k. k \<notin> set (toRemove (filteredKms f))) (map fst f))"
    by (simp add: collapse_eq filteredKms_def
          map_fst_filter [of "\<lambda>k. k \<notin> set (toRemove (sort (map fst f)))"])
  also have "\<dots> = filter (\<lambda>k. k \<notin> set (toRemove (filteredKms f))) (sort (map fst f))"
    by (simp add: filter_sort)
  finally show ?thesis by (simp add: filteredKms_def)
qed

lemma sorted_filteredKms: "sorted (filteredKms f)"
  by (simp add: filteredKms_def)

text \<open>
  Claim C5. The accepted keys are sorted ascending; a key is marked for removal exactly
  when it is the earlier key of an adjacent pair of the sorted list that is less than 5
  apart; the marks are computed on the original sorted list and exactly the marked keys
  are deleted; afterwards any two keys of the result are at least 5 apart; and on the
  keys \<open>[12, 15, 40]\<close> the key 12 is removed while 15 and 40 stay.
\<close>

theorem proximity_collapse:
  "(k \<in> set (toRemove (filteredKms f)) \<longleftrightarrow>
      (\<exists>i. Suc i < length (filteredKms f) \<and> filteredKms f ! i = k \<and>
           filteredKms f ! Suc i - filteredKms f ! i < 5)) \<and>
   sorted (filteredKms f) \<and>
   collapse f = filter (\<lambda>p. fst p \<notin> set (toRemove (filteredKms f))) f \<and>
   sorted_wrt (\<lambda>a b. a + 5 \<le> b) (filteredKms (collapse f)) \<and>
   toRemove (filteredKms [(12, e1), (15, e2), (40, e3)]) = [12] \<and>
   collapse [(12, e1), (15, e2), (40, e3)] = [(15, e2), (40, e3)]"
proof (intro conjI)
  show "k \<in> set (toRemove (filteredKms f)) \<longleftrightarrow>
      (\<exists>i. Suc i < length (filteredKms f) \<and> filteredKms f ! i = k \<and>
           filteredKms f ! Suc i - filteredKms f ! i < 5)"
    by (rule toRemove_iff)
  show "sorted (filteredKms f)" by (rule sorted_filteredKms)
  show "collapse f = filter (\<lambda>p. fst p \<notin> set (toRemove (filteredKms f))) f"
    by (rule collapse_eq)
  show "sorted_wrt (\<lambda>a b. a + 5 \<le> b) (filteredKms (collapse f))"
    unfolding filteredKms_collapse by (rule collapse_gap [OF sorted_filteredKms])
  show k: "toRemove (filteredKms [(12, e1), (15, e2), (40, e3)]) = [12]"
    by (simp add: filteredKms_def)
  show "collapse [(12, e1), (15, e2), (40, e3)] = [(15, e2), (40, e3)]"
    by (simp add: collapse_eq k)
qed

section \<open>The engine: lookup failure and input size\<close>

lemma features_empty:
  "features None = Inr ([], [], [])"
  "elements r = None \<Longrightarrow> features (Some r) = Inr ([], [], [])"
  "elements r = Some (Elements []) \<Longrightarrow> features (Some r) = Inr ([], [], [])"
  by (simp_all add: features_def)

lemma partitionElements_total:
  "list_all (\<lambda>el. el \<noteq> None) els \<Longrightarrow> \<exists>fs. partitionElements els = Inr fs"
proof (induction els)
  case Nil
  show ?case by simp
next
  case (Cons x xs)
  then obtain el where x: "x = Some el" by auto
  from Cons obtain ps rs ts where "partitionElements xs = Inr (ps, rs, ts)"
    by (cases x) auto
  with x show ?case by (simp split: option.splits)
qed

lemma partitionElements_null:
  "\<not> list_all (\<lambda>el. el \<noteq> None) els \<Longrightarrow> partitionElements els = Inl TypeError"
proof (induction els)
  case Nil
  then show ?case by simp
next
  case (Cons x xs)
  show ?case
  proof (cases x)
    case None
    then show ?thesis by simp
  next
    case (Some el)
    with Cons have "partitionElements xs = Inl TypeError" by simp
    with Some show ?thesis by simp
  qed
qed

lemma features_wellFormed:
  assumes "wellFormed r"
  shows "\<exists>fs. features r = Inr fs"
proof (cases r)
  case None
  then show ?thesis by (simp add: features_def)
next
  case (Some pl)
  show ?thesis
  proof (cases "elements pl")
    case None
    with Some show ?thesis by (simp add: features_def)
  next
    case (Some v)
    show ?thesis
    proof (cases v)
      case NotIterable
      with assms \<open>r = Some pl\<close> Some show ?thesis by (simp add: wellFormed_def)
    next
      case (Elements els)
      with assms \<open>r = Some pl\<close> Some have "list_all (\<lambda>el. el \<noteq> None) els"
        by (simp add: wellFormed_def)
      from partitionElements_total [OF this] Elements \<open>r = Some pl\<close> Some
      show ?thesis by (simp add: features_def)
    qed
  qed
qed

text \<open>A payload that the loop over the elements cannot read rejects the promise.\<close>

lemma features_malformed:
  assumes "\<not> wellFormed r"
  shows "features r = Inl TypeError"
proof (cases r)
  case None
  with assms show ?thesis by (simp add: wellFormed_def)
next
  case (Some pl)
  show ?thesis
  proof (cases "elements pl")
    case None
    with assms \<open>r = Some pl\<close> show ?thesis by (simp add: wellFormed_def)
  next
    case (Some v)
    show ?thesis
    proof (cases v)
      case NotIterable
      with \<open>r = Some pl\<close> Some show ?thesis by (simp add: features_def)
    next
      case (Elements els)
      with assms \<open>r = Some pl\<close> Some have "\<not> list_all (\<lambda>el. el \<noteq> None) els"
        by (simp add: wellFormed_def)
      from partitionElements_null [OF this] Elements \<open>r = Some pl\<close> Some
      show ?thesis by (simp add: features_def)
    qed
  qed
qed

lemma nearest_Nil: "nearest hav pos la lo [] = None"
  by (simp add: nearest_def)

lemma classifyMarker_no_features: "classifyMarker hav points [] [] [] idx = None"
  by (simp add: classifyMarker_def nearest_Nil)

lemma classifyStep_trace:
  "snd (classifyStep hav points passes rivers towns kms idxs pcb (summary, trace) m) =
     trace @ progressTrace pcb (length kms) [m]"
  by (simp add: classifyStep_def progressTrace_def Let_def split: option.splits)

lemma classify_trace_foldl:
  "snd (foldl (classifyStep hav points passes rivers towns kms idxs pcb) (summary, trace) ms) =
     trace @ progressTrace pcb (length kms) ms"
proof (induction ms arbitrary: summary trace)
  case Nil
  show ?case by (simp add: progressTrace_def)
next
  case (Cons m ms)
  obtain s' t' where
    st: "classifyStep hav points passes rivers towns kms idxs pcb (summary, trace) m = (s', t')"
    by (cases "classifyStep hav points passes rivers towns kms idxs pcb (summary, trace) m") auto
  with classifyStep_trace [of hav points passes rivers towns kms idxs pcb summary trace m]
  have "t' = trace @ progressTrace pcb (length kms) [m]" by simp
  with st Cons.IH [of s' t'] show ?case
    by (simp add: progressTrace_def)
qed

lemma classifyAll_trace:
  "snd (classifyAll hav points passes rivers towns kms idxs pcb) =
     progressTrace pcb (length kms) [0..<length kms]"
  by (simp add: classifyAll_def classify_trace_foldl)

lemma classify_no_features_foldl:
  "fst (foldl (classifyStep hav points [] [] [] kms idxs pcb) (summary, trace) ms) = summary"
  by (induction ms arbitrary: trace) (simp_all add: classifyStep_def classifyMarker_no_features)

lemma classifyAll_no_features:
  "fst (classifyAll hav points [] [] [] kms idxs pcb) = Map.empty"
  by (simp add: classifyAll_def classify_no_features_foldl)

lemma pass1_empty: "pass1 Map.empty kms st = st"
  unfolding pass1_def by (induction kms) (simp_all add: pass1Step_def)

lemma pass2_empty: "pass2 Map.empty kms st = st"
  unfolding pass2_def by (induction kms) (simp_all add: pass2Step_def)

lemma collectTowns_empty: "collectTowns towns Map.empty claimed kms = []"
  unfolding collectTowns_def by (induction kms) (simp_all add: collectStep_def)

lemma filterPipeline_empty: "filterPipeline towns Map.empty kms = []"
  by (simp add: filterPipeline_def pass1_empty pass2_empty pass3_def collectTowns_empty
      forIn_def initialState_def collapse_def filteredKms_def)

lemma boundingBox_nonempty:
  assumes "points \<noteq> []"
    and "length (markerIndices (sampleMarkers hav points)) \<le> maxArguments"
  shows "\<exists>bbox. boundingBox maxArguments points (markerIndices (sampleMarkers hav points)) =
           Inr bbox"
proof -
  from assms(1) have "max 1 (length points) = length points"
    by (cases points) simp_all
  with samplerInv_sampleMarkers [of hav points]
  have "list_all (\<lambda>j. j < length points) (markerIndices (sampleMarkers hav points))"
    by (simp add: samplerInv_def)
  then have "\<not> list_ex (\<lambda>i. length points \<le> i) (markerIndices (sampleMarkers hav points))"
    by (auto simp: list_all_iff list_ex_iff)
  with assms(2) show ?thesis by (simp add: boundingBox_def Let_def)
qed

lemma boundingBox_empty_track:
  "boundingBox maxArguments [] (markerIndices (sampleMarkers hav [])) = Inl TypeError"
  by (simp add: boundingBox_def sampleMarkers_def)

text \<open>The empty track: \<^verbatim>\<open>points[0]\<close> is \<^verbatim>\<open>undefined\<close> when the bounding box is computed.\<close>

lemma analyze_empty_track:
  "analyzeGpxRouteWithProgress hav maxArguments lookup [] pcb dcb = Inl TypeError"
  by (simp add: analyzeGpxRouteWithProgress_def Let_def boundingBox_empty_track)

text \<open>More markers than a call may take arguments: the spread into \<^verbatim>\<open>Math.min\<close> throws.\<close>

lemma analyze_too_many_markers:
  assumes "points \<noteq> []"
    and "maxArguments < length (markerIndices (sampleMarkers hav points))"
  shows "analyzeGpxRouteWithProgress hav maxArguments lookup points pcb dcb = Inl RangeError"
proof -
  from assms(1) have "max 1 (length points) = length points"
    by (cases points) simp_all
  with samplerInv_sampleMarkers [of hav points]
  have "list_all (\<lambda>j. j < length points) (markerIndices (sampleMarkers hav points))"
    by (simp add: samplerInv_def)
  then have "\<not> list_ex (\<lambda>i. length points \<le> i) (markerIndices (sampleMarkers hav points))"
    by (auto simp: list_all_iff list_ex_iff)
  with assms(2) show ?thesis
    by (simp add: analyzeGpxRouteWithProgress_def boundingBox_def Let_def)
qed

text \<open>A payload that cannot be read, met outside the \<^verbatim>\<open>try\<close>.\<close>

lemma analyze_malformed_payload:
  assumes "boundingBox maxArguments points (markerIndices (sampleMarkers hav points)) = Inr bbox"
    and "\<not> wellFormed (lookup bbox)"
  shows "analyzeGpxRouteWithProgress hav maxArguments lookup points pcb dcb = Inl TypeError"
  using assms by (simp add: analyzeGpxRouteWithProgress_def Let_def features_malformed)

lemma analyze_shape:
  assumes "boundingBox maxArguments points (markerIndices (sampleMarkers hav points)) = Inr bbox"
    and "features (lookup bbox) = Inr (passes, rivers, towns)"
  shows "analyzeGpxRouteWithProgress hav maxArguments lookup points pcb dcb =
       Inr (progressTrace pcb (length (kmMarkers (sampleMarkers hav points)))
              [0..<length (kmMarkers (sampleMarkers hav points))] @
            (if dcb
             then [Done (filterPipeline towns
                     (fst (classifyAll hav points passes rivers towns
                             (kmMarkers (sampleMarkers hav points))
                             (markerIndices (sampleMarkers hav points)) pcb))
                     (kmMarkers (sampleMarkers hav points)))]
             else []))"
  using assms
  by (simp add: analyzeGpxRouteWithProgress_def Let_def case_prod_unfold classifyAll_trace)

lemma sampleMarkers_single:
  "sampleMarkers hav [p] = \<lparr>kmMarkers = [0], markerIndices = [0], cumDist = 0\<rparr>"
  by (simp add: sampleMarkers_def)

text \<open>
  Claim C8. When the lookup is reached (the bounding box \<open>bbox\<close> has been computed) and
  it throws (\<open>None\<close>) or its payload has no elements (the property is absent or the
  list is empty), the three feature collections are empty, no marker gets an entry, and
  the engine returns normally: the progress reports \<open>(1, n), ..., (n, n)\<close> (when a
  progress callback was given) are followed by exactly one call of the completion
  callback, with the empty result.
\<close>

theorem lookup_failure_completes:
  assumes "boundingBox maxArguments points (markerIndices (sampleMarkers hav points)) = Inr bbox"
    and "lookup bbox = None \<or>
         (\<exists>r. lookup bbox = Some r \<and> (elements r = None \<or> elements r = Some (Elements [])))"
  shows "features (lookup bbox) = Inr ([], [], []) \<and>
         (\<forall>idx. classifyMarker hav points [] [] [] idx = None) \<and>
         fst (classifyAll hav points [] [] [] (kmMarkers (sampleMarkers hav points))
                (markerIndices (sampleMarkers hav points)) progressCallback) = Map.empty \<and>
         analyzeGpxRouteWithProgress hav maxArguments lookup points progressCallback True =
           Inr (progressTrace progressCallback (length (kmMarkers (sampleMarkers hav points)))
                  [0..<length (kmMarkers (sampleMarkers hav points))] @ [Done []])"
proof -
  have f: "features (lookup bbox) = Inr ([], [], [])"
    using assms(2) features_empty by metis
  from analyze_shape [where lookup = lookup and pcb = progressCallback and dcb = True,
      OF assms(1) f]
  have "analyzeGpxRouteWithProgress hav maxArguments lookup points progressCallback True =
           Inr (progressTrace progressCallback (length (kmMarkers (sampleMarkers hav points)))
                  [0..<length (kmMarkers (sampleMarkers hav points))] @ [Done []])"
    by (simp add: classifyAll_no_features filterPipeline_empty)
  with f show ?thesis
    by (simp add: classifyMarker_no_features classifyAll_no_features)
qed

theorem lookup_failure_completes_witness:
  "(\<exists>bbox. boundingBox 65535
       [\<lparr>lat = 0, lon = 0, ele = 0\<rparr>, \<lparr>lat = 0.6, lon = 0, ele = 0\<rparr>,
        \<lparr>lat = 1.7, lon = 0, ele = 0\<rparr>]
       (markerIndices (sampleMarkers (\<lambda>a b c d. \<bar>c - a\<bar>)
          [\<lparr>lat = 0, lon = 0, ele = 0\<rparr>, \<lparr>lat = 0.6, lon = 0, ele = 0\<rparr>,
           \<lparr>lat = 1.7, lon = 0, ele = 0\<rparr>])) = Inr bbox) \<and>
   analyzeGpxRouteWithProgress (\<lambda>a b c d. \<bar>c - a\<bar>) 65535 (\<lambda>b. None)
     [\<lparr>lat = 0, lon = 0, ele = 0\<rparr>, \<lparr>lat = 0.6, lon = 0, ele = 0\<rparr>,
      \<lparr>lat = 1.7, lon = 0, ele = 0\<rparr>] True True =
     Inr [Progress 1 2, Progress 2 2, Done []]"
proof -
  let ?pts = "[\<lparr>lat = 0, lon = 0, ele = 0\<rparr>, \<lparr>lat = 0.6, lon = 0, ele = 0\<rparr>,
      \<lparr>lat = 1.7, lon = 0, ele = 0\<rparr>]"
  let ?hav = "\<lambda>a b c d :: real. \<bar>c - a\<bar>"
  have s: "sampleMarkers ?hav ?pts = \<lparr>kmMarkers = [0, 2], markerIndices = [0, 2], cumDist = 1.7\<rparr>"
    by (simp add: sampleMarkers_def sampleStep_def upt_rec SAMPLE_EVERY_KM_def Math_round_def)
  then have k: "kmMarkers (sampleMarkers ?hav ?pts) = [0, 2]" by simp
  from s have "length (markerIndices (sampleMarkers ?hav ?pts)) \<le> 65535" by simp
  from boundingBox_nonempty [OF _ this] obtain bbox where
    b: "boundingBox 65535 ?pts (markerIndices (sampleMarkers ?hav ?pts)) = Inr bbox"
    by auto
  have l: "(\<lambda>b. None :: payload option) bbox = None \<or>
           (\<exists>r. (\<lambda>b. None) bbox = Some r \<and>
                (elements r = None \<or> elements r = Some (Elements [])))"
    by simp
  from lookup_failure_completes [OF b l, of True, unfolded k]
  have "analyzeGpxRouteWithProgress ?hav 65535 (\<lambda>b. None) ?pts True True =
          Inr [Progress 1 2, Progress 2 2, Done []]"
    by (simp add: progressTrace_def upt_rec)
  with b show ?thesis by blast
qed

text \<open>
  Claim C1 fails for the engine: on a track of one point (fewer than 2) it raises nothing,
  samples marker 0, classifies it, reports progress \<open>(1, 1)\<close> and calls the completion
  callback.
\<close>

theorem one_point_track_is_processed:
  "length [\<lparr>lat = 46, lon = 8, ele = 1200\<rparr>] < 2 \<and>
   analyzeGpxRouteWithProgress haversine 65535 (\<lambda>b. None)
     [\<lparr>lat = 46, lon = 8, ele = 1200\<rparr>] True True = Inr [Progress 1 1, Done []]"
  by (simp add: analyzeGpxRouteWithProgress_def sampleMarkers_single boundingBox_def
      features_def classifyAll_def classifyStep_def classifyMarker_no_features
      filterPipeline_empty)

text \<open>
  Claim C1, amended. The check on the number of track points is the guard of
  \<^verbatim>\<open>calculateStats\<close>, which raises before any statistic is computed. The engine has no
  such check: a track of one point yields the single marker
  \<open>{cumulativeKm: 0, pointIndex: 0}\<close> and is processed like any other. Where the track is
  non-empty, has no more markers than a call may take arguments, and the lookup throws or
  returns a payload whose elements are absent or a list without \<^verbatim>\<open>null\<close> members, the
  engine returns normally, having reported progress once per marker and called the
  completion callback (when given) exactly once, last.
\<close>

theorem input_size_check:
  "(length trkpts < 2 \<longrightarrow>
      calculateStats calculateTimeStats calculateDistanceAndRideTime calculateElevationStats
        trkpts = Inl NotEnoughTrackPoints) \<and>
   (points \<noteq> [] \<and> length (markerIndices (sampleMarkers hav points)) \<le> maxArguments \<and>
    (\<forall>b. wellFormed (lookup b)) \<longrightarrow>
      (\<exists>result. analyzeGpxRouteWithProgress hav maxArguments lookup points progressCallback
                  doneCallback =
         Inr (progressTrace progressCallback (length (kmMarkers (sampleMarkers hav points)))
                [0..<length (kmMarkers (sampleMarkers hav points))] @
              (if doneCallback then [Done result] else [])))) \<and>
   sampleMarkers hav [p] = \<lparr>kmMarkers = [0], markerIndices = [0], cumDist = 0\<rparr>"
proof (intro conjI impI)
  assume "length trkpts < 2"
  then show "calculateStats calculateTimeStats calculateDistanceAndRideTime
        calculateElevationStats trkpts = Inl NotEnoughTrackPoints"
    by (simp add: calculateStats_def)
next
  assume a: "points \<noteq> [] \<and> length (markerIndices (sampleMarkers hav points)) \<le> maxArguments \<and>
    (\<forall>b. wellFormed (lookup b))"
  then obtain bbox where
    b: "boundingBox maxArguments points (markerIndices (sampleMarkers hav points)) = Inr bbox"
    using boundingBox_nonempty [of points hav maxArguments] by blast
  from a have "wellFormed (lookup bbox)" by blast
  then obtain passes rivers towns where
    f: "features (lookup bbox) = Inr (passes, rivers, towns)"
    using features_wellFormed [of "lookup bbox"] by (metis prod_cases3)
  from analyze_shape [where lookup = lookup and pcb = progressCallback and dcb = doneCallback,
      OF b f]
  show "\<exists>result. analyzeGpxRouteWithProgress hav maxArguments lookup points progressCallback
                  doneCallback =
         Inr (progressTrace progressCallback (length (kmMarkers (sampleMarkers hav points)))
                [0..<length (kmMarkers (sampleMarkers hav points))] @
              (if doneCallback then [Done result] else []))"
    by blast
next
  show "sampleMarkers hav [p] = \<lparr>kmMarkers = [0], markerIndices = [0], cumDist = 0\<rparr>"
    by (rule sampleMarkers_single)
qed

theorem input_size_check_witness:
  "length [0::nat] < 2 \<and>
   calculateStats (\<lambda>ts. length ts) (\<lambda>ts t. t) (\<lambda>ts. ts) [0::nat] = Inl NotEnoughTrackPoints \<and>
   [\<lparr>lat = 46, lon = 8, ele = 1200\<rparr>] \<noteq> [] \<and>
   length (markerIndices (sampleMarkers haversine [\<lparr>lat = 46, lon = 8, ele = 1200\<rparr>])) \<le> 65535 \<and>
   wellFormed (Some \<lparr>elements = Some (Elements
     [Some \<lparr>el_lat = Some 46, el_lon = Some 8, el_center = None,
            el_tags = Some \<lparr>mountain_pass = None, waterway = None, place = Some ''town'',
                            tag_name = Some ''Brig'', population = Some ''13,000''\<rparr>\<rparr>])\<rparr>) \<and>
   (\<exists>result. analyzeGpxRouteWithProgress haversine 65535
      (\<lambda>b. Some \<lparr>elements = Some (Elements
         [Some \<lparr>el_lat = Some 46, el_lon = Some 8, el_center = None,
                el_tags = Some \<lparr>mountain_pass = None, waterway = None, place = Some ''town'',
                                tag_name = Some ''Brig'', population = Some ''13,000''\<rparr>\<rparr>])\<rparr>)
      [\<lparr>lat = 46, lon = 8, ele = 1200\<rparr>] True True = Inr [Progress 1 1, Done result])"
  using input_size_check [of "[0::nat]" "\<lambda>ts. length ts" "\<lambda>ts t. t" "\<lambda>ts. ts"
      "[\<lparr>lat = 46, lon = 8, ele = 1200\<rparr>]" haversine 65535
      "\<lambda>b. Some \<lparr>elements = Some (Elements
         [Some \<lparr>el_lat = Some 46, el_lon = Some 8, el_center = None,
                el_tags = Some \<lparr>mountain_pass = None, waterway = None, place = Some ''town'',
                                tag_name = Some ''Brig'', population = Some ''13,000''\<rparr>\<rparr>])\<rparr>"
      True True]
  by (simp add: sampleMarkers_single progressTrace_def wellFormed_def)

section \<open>Nearest-feature search and precedence\<close>

lemma partitionElements_tags:
  "partitionElements els = Inr (passes, rivers, towns) \<Longrightarrow>
   el \<in> set passes \<union> set rivers \<union> set towns \<Longrightarrow> el_tags el \<noteq> None"
proof (induction els arbitrary: passes rivers towns)
  case Nil
  then show ?case by simp
next
  case (Cons x xs)
  from Cons.prems(1) obtain y where x: "x = Some y" by (cases x) simp_all
  with Cons.prems(1) obtain ps rs ts where r: "partitionElements xs = Inr (ps, rs, ts)"
    by (cases "partitionElements xs") auto
  from Cons.IH [OF r] have IH: "el \<in> set ps \<union> set rs \<union> set ts \<Longrightarrow> el_tags el \<noteq> None"
    by blast
  from Cons.prems x r IH show ?case
    by (auto split: option.splits if_splits)
qed

lemma nearestLoop_skip:
  "\<not> usable (pos el) \<Longrightarrow>
   nearestLoop hav pos la lo (el # els) n d = nearestLoop hav pos la lo els n d"
  by (cases "pos el") (auto simp: usable_def truthy_def split: option.splits)

lemma nearestLoop_excluded:
  "\<not> usable (pos el) \<Longrightarrow>
   nearestLoop hav pos la lo (xs @ el # ys) n d = nearestLoop hav pos la lo (xs @ ys) n d"
proof (induction xs arbitrary: n d)
  case Nil
  then show ?case by (simp add: nearestLoop_skip del: nearestLoop.simps)
next
  case (Cons x xs)
  then show ?case by (auto split: option.splits prod.splits simp: Let_def)
qed

lemma nearestLoop_keeps:
  "n \<noteq> None \<Longrightarrow> nearestLoop hav pos la lo els n d \<noteq> None"
  by (induction els arbitrary: n d) (auto split: option.splits prod.splits simp: Let_def)

lemma nearestLoop_finds:
  assumes "el \<in> set els" "pos el = (Some a, Some b)" "a \<noteq> 0" "b \<noteq> 0" "hav la lo a b < d"
  shows "nearestLoop hav pos la lo els n d \<noteq> None"
  using assms
proof (induction els arbitrary: n d)
  case Nil
  then show ?case by simp
next
  case (Cons x xs)
  show ?case
  proof (cases "x = el")
    case True
    with Cons.prems show ?thesis by (simp add: nearestLoop_keeps)
  next
    case False
    with Cons.prems have in_xs: "el \<in> set xs" by simp
    show ?thesis
    proof (cases "pos x")
      case (Pair u v)
      show ?thesis
      proof (cases "\<exists>a' b'. u = Some a' \<and> v = Some b' \<and> a' \<noteq> 0 \<and> b' \<noteq> 0 \<and> hav la lo a' b' < d")
        case True
        then obtain a' b' where
          ab: "u = Some a'" "v = Some b'" "a' \<noteq> 0" "b' \<noteq> 0" "hav la lo a' b' < d"
          by blast
        with Pair have "nearestLoop hav pos la lo (x # xs) n d =
                        nearestLoop hav pos la lo xs (Some x) (hav la lo a' b')"
          by simp
        moreover have "nearestLoop hav pos la lo xs (Some x) (hav la lo a' b') \<noteq> None"
          by (rule nearestLoop_keeps) simp
        ultimately show ?thesis by simp
      next
        case False
        then have "nearestLoop hav pos la lo (x # xs) n d = nearestLoop hav pos la lo xs n d"
          using Pair by (auto split: option.splits)
        with Cons.IH [OF in_xs Cons.prems(2-5)] show ?thesis by simp
      qed
    qed
  qed
qed

lemma nearest_finds:
  assumes "el \<in> set els" "pos el = (Some a, Some b)" "a \<noteq> 0" "b \<noteq> 0" "hav la lo a b < 1"
  shows "nearest hav pos la lo els \<noteq> None"
  unfolding nearest_def using nearestLoop_finds [of el els pos a b hav la lo 1 None] assms
  by simp

text \<open>
  Precedence where the position check lets the pass through: a pass with non-zero
  coordinates strictly closer than 1.0 decides the entry's type, whatever rivers and
  towns are near.
\<close>

lemma pass_precedence_usable:
  assumes "el \<in> set passes" "el_lat el = Some a" "el_lon el = Some b" "a \<noteq> 0" "b \<noteq> 0"
    and "hav (lat (points ! idx)) (lon (points ! idx)) a b < 1"
  shows "\<exists>e. classifyMarker hav points passes rivers towns idx = Some e \<and> type e = Pass"
proof -
  from assms have "nearest hav nodePosition (lat (points ! idx)) (lon (points ! idx)) passes \<noteq> None"
    by (intro nearest_finds [of el _ _ a b]) (simp_all add: nodePosition_def)
  then show ?thesis by (auto simp: classifyMarker_def Let_def)
qed

text \<open>
  Claim C6 at a pass on the equator. The marker is within 1.0 of the pass \<open>Equator Pass\<close>
  (latitude 0, about 0.11 km away) and at the centre of the river \<open>Rio\<close>; the position
  check drops the pass and the entry has type river.
\<close>

theorem equator_pass_classified_as_river:
  "haversine 0.001 7.5 0 7.5 < 1 \<and>
   haversine 0.001 7.5 0.001 7.5 < 1 \<and>
   classifyMarker haversine
     [\<lparr>lat = 0.001, lon = 7.5, ele = 2000\<rparr>]
     [\<lparr>el_lat = Some 0, el_lon = Some 7.5, el_center = None,
       el_tags = Some \<lparr>mountain_pass = Some ''yes'', waterway = None, place = None,
                       tag_name = Some ''Equator Pass'', population = None\<rparr>\<rparr>]
     [\<lparr>el_lat = None, el_lon = None, el_center = Some (0.001, 7.5),
       el_tags = Some \<lparr>mountain_pass = None, waterway = Some ''river'', place = None,
                       tag_name = Some ''Rio'', population = None\<rparr>\<rparr>]
     [] 0 = Some \<lparr>type = River, name = ''Rio''\<rparr>"
proof -
  have "haversine 0.001 7.5 0 7.5 = 6371 * \<bar>0 - 0.001\<bar> * pi / 180"
    by (rule haversine_meridian) simp
  also have "\<dots> = 6371 / 180000 * pi" by simp
  also have "\<dots> < 6371 / 180000 * 4"
    using pi_less_4 by (intro mult_strict_left_mono) simp_all
  also have "\<dots> < 1" by simp
  finally have near_pass: "haversine 0.001 7.5 0 7.5 < 1" .
  have near_river: "haversine 0.001 7.5 0.001 7.5 < 1"
    by (simp add: haversine_same_point)
  have "classifyMarker haversine
     [\<lparr>lat = 0.001, lon = 7.5, ele = 2000\<rparr>]
     [\<lparr>el_lat = Some 0, el_lon = Some 7.5, el_center = None,
       el_tags = Some \<lparr>mountain_pass = Some ''yes'', waterway = None, place = None,
                       tag_name = Some ''Equator Pass'', population = None\<rparr>\<rparr>]
     [\<lparr>el_lat = None, el_lon = None, el_center = Some (0.001, 7.5),
       el_tags = Some \<lparr>mountain_pass = None, waterway = Some ''river'', place = None,
                       tag_name = Some ''Rio'', population = None\<rparr>\<rparr>]
     [] 0 = Some \<lparr>type = River, name = ''Rio''\<rparr>"
    by (simp add: classifyMarker_def nearest_def nodePosition_def riverPosition_def js_or_def
        truthy_def featureName_def str_or_def haversine_same_point)
  with near_pass near_river show ?thesis by blast
qed

text \<open>
  Claim C10 fails for a river with one zero coordinate: with latitude 46.5, longitude 0
  and center (46, 8), the position used is (46.5, 8), not the center; a marker at the
  center itself (distance 0) does not match the river.
\<close>

theorem river_mixed_position:
  "riverPosition \<lparr>el_lat = Some 46.5, el_lon = Some 0, el_center = Some (46, 8), el_tags = None\<rparr>
     = (Some 46.5, Some 8) \<and>
   haversine 46 8 46 8 < 1 \<and>
   nearest haversine riverPosition 46 8
     [\<lparr>el_lat = Some 46.5, el_lon = Some 0, el_center = Some (46, 8), el_tags = None\<rparr>] = None"
proof -
  have "haversine 46 8 46.5 8 = 6371 * \<bar>46.5 - 46\<bar> * pi / 180"
    by (rule haversine_meridian) simp
  also have "\<dots> = 6371 / 360 * pi" by simp
  finally have "6371 / 360 * 2 \<le> haversine 46 8 46.5 8"
    using pi_ge_two by simp
  then have far: "\<not> haversine 46 8 46.5 8 < 1" by simp
  have "nearest haversine riverPosition 46 8
     [\<lparr>el_lat = Some 46.5, el_lon = Some 0, el_center = Some (46, 8), el_tags = None\<rparr>] = None"
    using far by (simp add: riverPosition_def js_or_def truthy_def nearest_def)
  then show ?thesis
    by (simp add: riverPosition_def js_or_def truthy_def haversine_same_point)
qed

text \<open>
  Claim C10, amended. A pass or town whose latitude or longitude is 0 is left out of the
  nearest-feature search: the search gives the same result as without it. A river takes
  each coordinate separately: its own when that is present and non-zero, the center's
  when its own is absent or 0. So a river with both own coordinates absent or 0 (every
  way of the lookup has them absent) is measured at its center, one whose latitude is
  absent or 0 and whose longitude is non-zero at the center's latitude and its own
  longitude (symmetrically for the longitude), and one with both own coordinates
  non-zero at its own position; a river whose chosen position still has a missing or
  zero coordinate is left out as well.
\<close>

theorem zero_coordinate_positions:
  "((el_lat el = Some 0 \<or> el_lon el = Some 0) \<longrightarrow>
      nearest hav nodePosition la lo (xs @ el # ys) = nearest hav nodePosition la lo (xs @ ys)) \<and>
   ((el_lat r = None \<or> el_lat r = Some 0) \<and> (el_lon r = None \<or> el_lon r = Some 0) \<longrightarrow>
      riverPosition r = (map_option fst (el_center r), map_option snd (el_center r))) \<and>
   ((el_lat r1 = None \<or> el_lat r1 = Some 0) \<and> el_lon r1 = Some b \<and> b \<noteq> 0 \<longrightarrow>
      riverPosition r1 = (map_option fst (el_center r1), Some b)) \<and>
   (el_lat r2 = Some a \<and> a \<noteq> 0 \<and> (el_lon r2 = None \<or> el_lon r2 = Some 0) \<longrightarrow>
      riverPosition r2 = (Some a, map_option snd (el_center r2))) \<and>
   (el_lat r5 = Some a5 \<and> a5 \<noteq> 0 \<and> el_lon r5 = Some b5 \<and> b5 \<noteq> 0 \<longrightarrow>
      riverPosition r5 = (Some a5, Some b5)) \<and>
   (\<not> usable (riverPosition r3) \<longrightarrow>
      nearest hav riverPosition la lo (xs @ r3 # ys) = nearest hav riverPosition la lo (xs @ ys)) \<and>
   (riverPosition r4 = (Some u, Some v) \<and> u \<noteq> 0 \<and> v \<noteq> 0 \<longrightarrow>
      nearest hav riverPosition la lo [r4] = (if hav la lo u v < 1 then Some r4 else None))"
proof (intro conjI impI)
  assume "el_lat el = Some 0 \<or> el_lon el = Some 0"
  then have "\<not> usable (nodePosition el)"
    by (auto simp: usable_def nodePosition_def truthy_def)
  then show "nearest hav nodePosition la lo (xs @ el # ys) = nearest hav nodePosition la lo (xs @ ys)"
    unfolding nearest_def by (rule nearestLoop_excluded)
next
  assume "(el_lat r = None \<or> el_lat r = Some 0) \<and> (el_lon r = None \<or> el_lon r = Some 0)"
  then show "riverPosition r = (map_option fst (el_center r), map_option snd (el_center r))"
    by (auto simp: riverPosition_def js_or_def truthy_def)
next
  assume "(el_lat r1 = None \<or> el_lat r1 = Some 0) \<and> el_lon r1 = Some b \<and> b \<noteq> 0"
  then show "riverPosition r1 = (map_option fst (el_center r1), Some b)"
    by (auto simp: riverPosition_def js_or_def truthy_def)
next
  assume "el_lat r2 = Some a \<and> a \<noteq> 0 \<and> (el_lon r2 = None \<or> el_lon r2 = Some 0)"
  then show "riverPosition r2 = (Some a, map_option snd (el_center r2))"
    by (auto simp: riverPosition_def js_or_def truthy_def)
next
  assume "el_lat r5 = Some a5 \<and> a5 \<noteq> 0 \<and> el_lon r5 = Some b5 \<and> b5 \<noteq> 0"
  then show "riverPosition r5 = (Some a5, Some b5)"
    by (simp add: riverPosition_def js_or_def truthy_def)
next
  assume "\<not> usable (riverPosition r3)"
  then show "nearest hav riverPosition la lo (xs @ r3 # ys) = nearest hav riverPosition la lo (xs @ ys)"
    unfolding nearest_def by (rule nearestLoop_excluded)
next
  assume "riverPosition r4 = (Some u, Some v) \<and> u \<noteq> 0 \<and> v \<noteq> 0"
  then show "nearest hav riverPosition la lo [r4] = (if hav la lo u v < 1 then Some r4 else None)"
    by (simp add: nearest_def)
qed

text \<open>
  The instance: a town with latitude 0 before a usable one; a way with center only; a
  river with latitude absent and longitude 7.5; one with latitude 46.1 and longitude
  absent; one with both own coordinates; one with no usable position; and the distance
  taken at the mixed position. The last two lines read the all-zero and the
  zero-latitude river as well.
\<close>

theorem zero_coordinate_positions_witness:
  "nearest (\<lambda>a b c d. 111 * (\<bar>c - a\<bar> + \<bar>d - b\<bar>)) nodePosition 46 8
     ([] @ \<lparr>el_lat = Some 0, el_lon = Some 8, el_center = None, el_tags = None\<rparr> #
      [\<lparr>el_lat = Some 46, el_lon = Some 8, el_center = None, el_tags = None\<rparr>]) =
   Some \<lparr>el_lat = Some 46, el_lon = Some 8, el_center = None, el_tags = None\<rparr> \<and>
   riverPosition \<lparr>el_lat = None, el_lon = None, el_center = Some (46, 8), el_tags = None\<rparr> =
     (Some 46, Some 8) \<and>
   riverPosition \<lparr>el_lat = None, el_lon = Some 7.5, el_center = Some (46, 8), el_tags = None\<rparr> =
     (Some 46, Some 7.5) \<and>
   riverPosition \<lparr>el_lat = Some 46.1, el_lon = None, el_center = Some (46, 8), el_tags = None\<rparr> =
     (Some 46.1, Some 8) \<and>
   riverPosition \<lparr>el_lat = Some 46.1, el_lon = Some 7.9, el_center = Some (46, 8), el_tags = None\<rparr> =
     (Some 46.1, Some 7.9) \<and>
   nearest (\<lambda>a b c d. 111 * (\<bar>c - a\<bar> + \<bar>d - b\<bar>)) riverPosition 46 8
     ([] @ \<lparr>el_lat = Some 0, el_lon = None, el_center = None, el_tags = None\<rparr> #
      [\<lparr>el_lat = Some 46, el_lon = Some 8, el_center = None, el_tags = None\<rparr>]) =
   Some \<lparr>el_lat = Some 46, el_lon = Some 8, el_center = None, el_tags = None\<rparr> \<and>
   nearest (\<lambda>a b c d. 111 * (\<bar>c - a\<bar> + \<bar>d - b\<bar>)) riverPosition 46 8
     [\<lparr>el_lat = Some 0, el_lon = Some 7.5, el_center = Some (46, 8), el_tags = None\<rparr>] = None \<and>
   riverPosition \<lparr>el_lat = Some 0, el_lon = Some 0, el_center = Some (46, 8), el_tags = None\<rparr> =
     (Some 46, Some 8) \<and>
   riverPosition \<lparr>el_lat = Some 0, el_lon = Some 7.5, el_center = Some (46, 8), el_tags = None\<rparr> =
     (Some 46, Some 7.5)"
  using zero_coordinate_positions
    [where el = "\<lparr>el_lat = Some 0, el_lon = Some 8, el_center = None, el_tags = None\<rparr>"
       and hav = "\<lambda>a b c d. 111 * (\<bar>c - a\<bar> + \<bar>d - b\<bar>)" and la = 46 and lo = 8
       and xs = "[]"
       and ys = "[\<lparr>el_lat = Some 46, el_lon = Some 8, el_center = None, el_tags = None\<rparr>]"
       and r = "\<lparr>el_lat = None, el_lon = None, el_center = Some (46, 8), el_tags = None\<rparr>"
       and ?r1.0 = "\<lparr>el_lat = None, el_lon = Some 7.5, el_center = Some (46, 8), el_tags = None\<rparr>"
       and b = "7.5"
       and ?r2.0 = "\<lparr>el_lat = Some 46.1, el_lon = None, el_center = Some (46, 8), el_tags = None\<rparr>"
       and a = "46.1"
       and ?r5.0 = "\<lparr>el_lat = Some 46.1, el_lon = Some 7.9, el_center = Some (46, 8), el_tags = None\<rparr>"
       and ?a5.0 = "46.1" and ?b5.0 = "7.9"
       and ?r3.0 = "\<lparr>el_lat = Some 0, el_lon = None, el_center = None, el_tags = None\<rparr>"
       and ?r4.0 = "\<lparr>el_lat = Some 0, el_lon = Some 7.5, el_center = Some (46, 8), el_tags = None\<rparr>"
       and u = 46 and v = "7.5"]
  by (simp add: nearest_def nodePosition_def riverPosition_def js_or_def truthy_def usable_def)

section \<open>Block deduplication filter\<close>

lemma seenKey_inj: "seenKey e = seenKey e' \<Longrightarrow> e = e'"
proof -
  assume k: "seenKey e = seenKey e'"
  have t: "type e = type e'"
    using k by (cases "type e"; cases "type e'") (simp_all add: seenKey_def)
  with k have "name e = name e'" by (simp add: seenKey_def)
  with t show ?thesis by simp
qed

lemma update_fresh:
  "k \<notin> fst ` set al \<Longrightarrow> set (AList.update k v al) = insert (k, v) (set al)"
  by (induction al) auto

lemma update_subset:
  "set (AList.update k v al) \<subseteq> insert (k, v) (set al)"
  by (induction al) auto

lemma filterInv_fresh:
  "filterInv st \<Longrightarrow> blockOf km \<notin> blockHas st \<Longrightarrow> km \<notin> fst ` set (filtered st)"
  by (auto simp: filterInv_def list_all_iff)

lemma filterInv_initial: "filterInv initialState"
  by (simp add: filterInv_def initialState_def)

lemma filterInv_accept:
  assumes "filterInv st" "blockOf km \<notin> blockHas st"
  shows "filterInv (accept km e st)"
proof -
  from filterInv_fresh [OF assms] have "set (AList.update km e (filtered st)) = insert (km, e) (set (filtered st))"
    by (rule update_fresh)
  with assms(1) show ?thesis
    by (auto simp: filterInv_def accept_def list_all_iff)
qed

lemma filtered_accept:
  assumes "filterInv st" "blockOf km \<notin> blockHas st"
  shows "set (filtered (accept km e st)) = insert (km, e) (set (filtered st))"
  using update_fresh [OF filterInv_fresh [OF assms]] by (simp add: accept_def)

lemma filterInv_pass1Step: "filterInv st \<Longrightarrow> filterInv (pass1Step summary st km)"
  by (auto simp: pass1Step_def filterInv_accept split: option.splits)

lemma filterInv_pass2Step: "filterInv st \<Longrightarrow> filterInv (pass2Step summary st km)"
  by (auto simp: pass2Step_def filterInv_accept split: option.splits)

lemma filterInv_pass1: "filterInv st \<Longrightarrow> filterInv (pass1 summary kms st)"
  unfolding pass1_def by (induction kms arbitrary: st) (simp_all add: filterInv_pass1Step)

lemma filterInv_pass2_foldl: "filterInv st \<Longrightarrow> filterInv (foldl (pass2Step summary) st kms)"
  by (induction kms arbitrary: st) (simp_all add: filterInv_pass2Step)

lemma types_pass1Step:
  assumes "filterInv st" "\<forall>p\<in>set (filtered st). type (snd p) = Pass"
  shows "\<forall>p\<in>set (filtered (pass1Step summary st km)). type (snd p) = Pass"
  using assms by (auto simp: pass1Step_def filtered_accept split: option.splits)

lemma types_pass1_foldl:
  assumes "filterInv st" "\<forall>p\<in>set (filtered st). type (snd p) = Pass"
  shows "\<forall>p\<in>set (filtered (foldl (pass1Step summary) st kms)). type (snd p) = Pass"
  using assms
proof (induction kms arbitrary: st)
  case Nil
  then show ?case by simp
next
  case (Cons km kms)
  from Cons.prems have "filterInv (pass1Step summary st km)"
    by (simp add: filterInv_pass1Step)
  moreover from Cons.prems have "\<forall>p\<in>set (filtered (pass1Step summary st km)). type (snd p) = Pass"
    by (rule types_pass1Step)
  ultimately show ?case using Cons.IH by simp
qed

lemma types_pass1:
  "\<forall>p\<in>set (filtered (pass1 summary kms initialState)). type (snd p) = Pass"
  unfolding pass1_def
  by (rule types_pass1_foldl [OF filterInv_initial]) (simp add: initialState_def)

lemma types_pass2Step:
  assumes "filterInv st" "\<forall>p\<in>set (filtered st). type (snd p) \<noteq> Town"
  shows "\<forall>p\<in>set (filtered (pass2Step summary st km)). type (snd p) \<noteq> Town"
  using assms by (auto simp: pass2Step_def filtered_accept split: option.splits)

lemma types_pass2_foldl:
  assumes "filterInv st" "\<forall>p\<in>set (filtered st). type (snd p) \<noteq> Town"
  shows "\<forall>p\<in>set (filtered (foldl (pass2Step summary) st kms)). type (snd p) \<noteq> Town"
  using assms
proof (induction kms arbitrary: st)
  case Nil
  then show ?case by simp
next
  case (Cons km kms)
  from Cons.prems have "filterInv (pass2Step summary st km)"
    by (simp add: filterInv_pass2Step)
  moreover from Cons.prems have "\<forall>p\<in>set (filtered (pass2Step summary st km)). type (snd p) \<noteq> Town"
    by (rule types_pass2Step)
  ultimately show ?case using Cons.IH by simp
qed

lemma seen_iff_accepted:
  "filterInv st \<Longrightarrow> seenKey e \<in> seen st \<longleftrightarrow> e \<in> snd ` set (filtered st)"
  by (auto simp: filterInv_def dest: seenKey_inj)

text \<open>
  Claim C3 fails: the name accepted as a pass in pass 1 (at km 5) is accepted again as a
  river in pass 2 (at km 15), and both are in the result.
\<close>

theorem pass_name_reappears_as_river:
  "filterPipeline []
     [5 \<mapsto> \<lparr>type = Pass, name = ''Gotthard''\<rparr>, 15 \<mapsto> \<lparr>type = River, name = ''Gotthard''\<rparr>]
     [0, 5, 15] =
   [(5, \<lparr>type = Pass, name = ''Gotthard''\<rparr>), (15, \<lparr>type = River, name = ''Gotthard''\<rparr>)]"
  by (simp add: filterPipeline_def pass1_def pass2_def pass3_def pass1Step_def pass2Step_def
      collectTowns_def collectStep_def forIn_def accept_def initialState_def blockOf_def
      unnamed_def toLowerCase_def toLowerChar_def seenKey_def collapse_def filteredKms_def)

text \<open>
  Claim C3, amended. In pass 2 the check against \<^verbatim>\<open>seen\<close> never skips a river because
  of pass 1, which accepts entries of type pass only, whose keys differ from every river
  key. A river marker is skipped by that check exactly when the same river entry (type
  river and the same name) is already in the result, that is, was accepted earlier in
  pass 2. So a named river in an unclaimed block is accepted unless a river of that name
  was accepted before it; a name accepted as a pass can be accepted again as a river.
\<close>

theorem river_dedup_by_type_and_name:
  assumes "st1 = pass1 summary kms initialState"
    and "kms = pre @ km # post"
    and "st = foldl (pass2Step summary) st1 pre"
    and "summary km = Some e"
    and "type e = River"
  shows "seenKey e \<notin> seen st1 \<and>
         (\<forall>p\<in>set (filtered st1). type (snd p) = Pass) \<and>
         (seenKey e \<in> seen st \<longleftrightarrow> e \<in> snd ` set (filtered st)) \<and>
         pass2Step summary st km =
           (if unnamed e \<or> blockOf km \<in> blockHas st \<or> e \<in> snd ` set (filtered st) then st
            else accept km e st) \<and>
         pass2 summary kms st1 = foldl (pass2Step summary) (pass2Step summary st km) post"
proof -
  have inv1: "filterInv st1"
    unfolding assms(1) by (rule filterInv_pass1 [OF filterInv_initial])
  have ty1: "\<forall>p\<in>set (filtered st1). type (snd p) = Pass"
    unfolding assms(1) by (rule types_pass1)
  have inv: "filterInv st"
    unfolding assms(3) by (rule filterInv_pass2_foldl [OF inv1])
  have a: "seenKey e \<notin> seen st1"
  proof
    assume "seenKey e \<in> seen st1"
    with inv1 have "e \<in> snd ` set (filtered st1)" by (simp add: seen_iff_accepted)
    with ty1 have "type e = Pass" by auto
    with assms(5) show False by simp
  qed
  have b: "seenKey e \<in> seen st \<longleftrightarrow> e \<in> snd ` set (filtered st)"
    by (rule seen_iff_accepted [OF inv])
  have c: "pass2Step summary st km =
           (if unnamed e \<or> blockOf km \<in> blockHas st \<or> e \<in> snd ` set (filtered st) then st
            else accept km e st)"
    using assms(4,5) b by (simp add: pass2Step_def)
  have d: "pass2 summary kms st1 = foldl (pass2Step summary) (pass2Step summary st km) post"
    by (simp add: pass2_def assms(2,3))
  from a ty1 b c d show ?thesis by blast
qed

theorem river_dedup_by_type_and_name_witness:
  "[3 \<mapsto> \<lparr>type = Pass, name = ''Gotthard''\<rparr>, 15 \<mapsto> \<lparr>type = River, name = ''Reuss''\<rparr>,
    25 \<mapsto> \<lparr>type = River, name = ''Reuss''\<rparr>] 25 = Some \<lparr>type = River, name = ''Reuss''\<rparr> \<and>
   type \<lparr>type = River, name = ''Reuss''\<rparr> = River \<and>
   [0, 3, 15, 25] = [0, 3, 15] @ 25 # [] \<and>
   seenKey \<lparr>type = River, name = ''Reuss''\<rparr> \<notin>
     seen (pass1 [3 \<mapsto> \<lparr>type = Pass, name = ''Gotthard''\<rparr>,
                  15 \<mapsto> \<lparr>type = River, name = ''Reuss''\<rparr>,
                  25 \<mapsto> \<lparr>type = River, name = ''Reuss''\<rparr>] [0, 3, 15, 25] initialState) \<and>
   filtered (pass2 [3 \<mapsto> \<lparr>type = Pass, name = ''Gotthard''\<rparr>,
                    15 \<mapsto> \<lparr>type = River, name = ''Reuss''\<rparr>,
                    25 \<mapsto> \<lparr>type = River, name = ''Reuss''\<rparr>] [0, 3, 15, 25]
              (pass1 [3 \<mapsto> \<lparr>type = Pass, name = ''Gotthard''\<rparr>,
                      15 \<mapsto> \<lparr>type = River, name = ''Reuss''\<rparr>,
                      25 \<mapsto> \<lparr>type = River, name = ''Reuss''\<rparr>] [0, 3, 15, 25] initialState)) =
     [(3, \<lparr>type = Pass, name = ''Gotthard''\<rparr>), (15, \<lparr>type = River, name = ''Reuss''\<rparr>)]"
  using river_dedup_by_type_and_name
    [where summary = "[3 \<mapsto> \<lparr>type = Pass, name = ''Gotthard''\<rparr>,
                       15 \<mapsto> \<lparr>type = River, name = ''Reuss''\<rparr>,
                       25 \<mapsto> \<lparr>type = River, name = ''Reuss''\<rparr>]"
       and kms = "[0, 3, 15, 25]" and pre = "[0, 3, 15]" and km = 25 and post = "[]"
       and e = "\<lparr>type = River, name = ''Reuss''\<rparr>", OF refl _ refl]
  by (simp add: pass1_def pass2_def pass1Step_def pass2Step_def accept_def initialState_def
      blockOf_def unnamed_def toLowerCase_def toLowerChar_def seenKey_def)

lemma set_forIn: "set (forIn obj) = set obj"
  by (simp add: forIn_def)

lemma distinct_forIn: "distinct (map fst (forIn obj)) = distinct (map fst obj)"
  unfolding forIn_def by (induction obj) (simp_all add: distinct_insort_key)

lemma collectInv_update:
  assumes "collectInv summary claimed bts"
    and "b \<notin> claimed" "b = blockOf (bt_km w)" "type (bt_entry w) = Town"
    and "summary (bt_km w) = Some (bt_entry w)" "\<not> unnamed (bt_entry w)"
  shows "collectInv summary claimed (AList.update b w bts)"
proof -
  from assms(1) have "distinct (map fst (AList.update b w bts))"
    by (simp add: collectInv_def distinct_update)
  moreover have "set (AList.update b w bts) \<subseteq> insert (b, w) (set bts)"
    by (rule update_subset)
  ultimately show ?thesis
    using assms by (auto simp: collectInv_def list_all_iff)
qed

lemma collectInv_step:
  "collectInv summary claimed bts \<Longrightarrow>
   collectInv summary claimed (collectStep towns summary claimed bts km)"
  by (auto simp: collectStep_def Let_def collectInv_update split: option.splits)

lemma collectInv_collectTowns: "collectInv summary claimed (collectTowns towns summary claimed kms)"
proof -
  have "collectInv summary claimed bts \<Longrightarrow>
        collectInv summary claimed (foldl (collectStep towns summary claimed) bts kms)" for bts
    by (induction kms arbitrary: bts) (simp_all add: collectInv_step)
  moreover have "collectInv summary claimed []" by (simp add: collectInv_def)
  ultimately show ?thesis by (simp add: collectTowns_def)
qed

lemma collectInv_forIn: "collectInv summary claimed bts \<Longrightarrow> collectInv summary claimed (forIn bts)"
  by (auto simp: collectInv_def distinct_forIn list_all_iff set_forIn)

lemma acceptStep_unclaimed:
  "fst bw \<notin> blockHas st \<Longrightarrow>
   blockHas (acceptStep st bw) = insert (fst bw) (blockHas st) \<and>
   seen (acceptStep st bw) = insert (seenKey (bt_entry (snd bw))) (seen st)"
  by (auto simp: acceptStep_def Let_def)

lemma accept_prefix:
  assumes "distinct (map fst pre)" "\<forall>p\<in>set pre. fst p \<notin> blockHas st0"
  shows "blockHas (foldl acceptStep st0 pre) = blockHas st0 \<union> fst ` set pre \<and>
         seen (foldl acceptStep st0 pre) = seen st0 \<union> (\<lambda>p. seenKey (bt_entry (snd p))) ` set pre"
  using assms
proof (induction pre rule: rev_induct)
  case Nil
  show ?case by simp
next
  case (snoc x xs)
  then have IH: "blockHas (foldl acceptStep st0 xs) = blockHas st0 \<union> fst ` set xs"
      "seen (foldl acceptStep st0 xs) = seen st0 \<union> (\<lambda>p. seenKey (bt_entry (snd p))) ` set xs"
    by simp_all
  from snoc.prems have "fst x \<notin> blockHas st0 \<union> fst ` set xs" by auto
  with IH(1) have "fst x \<notin> blockHas (foldl acceptStep st0 xs)" by simp
  from acceptStep_unclaimed [OF this] IH show ?case by auto
qed

text \<open>
  Claim C2 fails: the towns at km 5 and km 15 win their blocks 0 and 1, no pair was
  accepted by pass 1 or pass 2, and still the winner of block 1 is not accepted, because
  the winner of block 0 has the same name.
\<close>

theorem same_named_town_blocks_later_winner:
  "seen (pass2 [5 \<mapsto> \<lparr>type = Town, name = ''Neustadt''\<rparr>, 15 \<mapsto> \<lparr>type = Town, name = ''Neustadt''\<rparr>]
          [0, 5, 15]
          (pass1 [5 \<mapsto> \<lparr>type = Town, name = ''Neustadt''\<rparr>,
                  15 \<mapsto> \<lparr>type = Town, name = ''Neustadt''\<rparr>] [0, 5, 15] initialState)) = {} \<and>
   forIn (collectTowns []
            [5 \<mapsto> \<lparr>type = Town, name = ''Neustadt''\<rparr>, 15 \<mapsto> \<lparr>type = Town, name = ''Neustadt''\<rparr>]
            {} [0, 5, 15]) =
     [(0, \<lparr>bt_km = 5, bt_entry = \<lparr>type = Town, name = ''Neustadt''\<rparr>, bt_pop = Num 0\<rparr>),
      (1, \<lparr>bt_km = 15, bt_entry = \<lparr>type = Town, name = ''Neustadt''\<rparr>, bt_pop = Num 0\<rparr>)] \<and>
   filterPipeline []
     [5 \<mapsto> \<lparr>type = Town, name = ''Neustadt''\<rparr>, 15 \<mapsto> \<lparr>type = Town, name = ''Neustadt''\<rparr>]
     [0, 5, 15] = [(5, \<lparr>type = Town, name = ''Neustadt''\<rparr>)]"
  by (simp add: filterPipeline_def pass1_def pass2_def pass3_def pass1Step_def pass2Step_def
      collectTowns_def collectStep_def forIn_def acceptStep_def initialState_def blockOf_def
      unnamed_def toLowerCase_def toLowerChar_def seenKey_def collapse_def filteredKms_def
      findTown_def populationOf_def)

text \<open>
  Claim C2, amended. Pass 3 visits the blocks' winning towns in ascending block order.
  No pair accepted by pass 1 or pass 2 ever stops a winner, since those pairs have type
  pass or river. A winner is accepted unless a town of the same name won an earlier block
  in pass 3 itself; such an earlier winner does prevent the later one, whose block is
  then claimed without an entry.
\<close>

theorem town_winner_acceptance:
  assumes "st2 = pass2 summary kms (pass1 summary kms initialState)"
    and "forIn (collectTowns towns summary (blockHas st2) kms) = pre @ (block, w) # post"
    and "st = foldl acceptStep st2 pre"
  shows "seenKey (bt_entry w) \<notin> seen st2 \<and>
         (seenKey (bt_entry w) \<in> seen st \<longleftrightarrow>
            (\<exists>p\<in>set pre. name (bt_entry (snd p)) = name (bt_entry w))) \<and>
         acceptStep st (block, w) =
           (if \<exists>p\<in>set pre. name (bt_entry (snd p)) = name (bt_entry w)
            then st\<lparr>blockHas := insert block (blockHas st)\<rparr>
            else st\<lparr>filtered := AList.update (bt_km w) (bt_entry w) (filtered st),
                    blockHas := insert block (blockHas st),
                    seen := insert (seenKey (bt_entry w)) (seen st)\<rparr>) \<and>
         pass3 towns summary kms st2 = foldl acceptStep (acceptStep st (block, w)) post"
proof -
  let ?ws = "forIn (collectTowns towns summary (blockHas st2) kms)"
  have ci: "collectInv summary (blockHas st2) ?ws"
    by (rule collectInv_forIn [OF collectInv_collectTowns])
  then have dist: "distinct (map fst ?ws)"
    and props: "\<forall>p\<in>set ?ws. fst p \<notin> blockHas st2 \<and> type (bt_entry (snd p)) = Town"
    by (auto simp: collectInv_def list_all_iff)
  from dist have dpre: "distinct (map fst pre)" and bnew: "block \<notin> fst ` set pre"
    unfolding assms(2) by auto
  from props have ppre: "\<forall>p\<in>set pre. fst p \<notin> blockHas st2"
    and tpre: "\<forall>p\<in>set pre. type (bt_entry (snd p)) = Town"
    and bw: "block \<notin> blockHas st2" "type (bt_entry w) = Town"
    unfolding assms(2) by auto
  have inv1: "filterInv (pass1 summary kms initialState)"
    by (rule filterInv_pass1 [OF filterInv_initial])
  have inv2: "filterInv st2"
    unfolding assms(1) pass2_def by (rule filterInv_pass2_foldl [OF inv1])
  have ty2: "\<forall>p\<in>set (filtered st2). type (snd p) \<noteq> Town"
    unfolding assms(1) pass2_def
  proof (rule types_pass2_foldl [OF inv1])
    show "\<forall>p\<in>set (filtered (pass1 summary kms initialState)). type (snd p) \<noteq> Town"
      using types_pass1 [of summary kms] by auto
  qed
  have a: "seenKey (bt_entry w) \<notin> seen st2"
  proof
    assume "seenKey (bt_entry w) \<in> seen st2"
    with inv2 have "bt_entry w \<in> snd ` set (filtered st2)" by (simp add: seen_iff_accepted)
    with ty2 have "type (bt_entry w) \<noteq> Town" by auto
    with bw(2) show False by simp
  qed
  from accept_prefix [OF dpre ppre]
  have bh: "blockHas st = blockHas st2 \<union> fst ` set pre"
    and sn: "seen st = seen st2 \<union> (\<lambda>p. seenKey (bt_entry (snd p))) ` set pre"
    unfolding assms(3) by simp_all
  have same: "seenKey (bt_entry (snd p)) = seenKey (bt_entry w) \<longleftrightarrow>
              name (bt_entry (snd p)) = name (bt_entry w)" if "p \<in> set pre" for p
    using tpre that bw(2) by (auto simp: seenKey_def)
  have b: "seenKey (bt_entry w) \<in> seen st \<longleftrightarrow>
            (\<exists>p\<in>set pre. name (bt_entry (snd p)) = name (bt_entry w))"
  proof
    assume "seenKey (bt_entry w) \<in> seen st"
    with a sn obtain p where p: "p \<in> set pre"
      and "seenKey (bt_entry w) = seenKey (bt_entry (snd p))"
      by auto
    with same [of p] have "name (bt_entry (snd p)) = name (bt_entry w)" by simp
    with p show "\<exists>p\<in>set pre. name (bt_entry (snd p)) = name (bt_entry w)" ..
  next
    assume "\<exists>p\<in>set pre. name (bt_entry (snd p)) = name (bt_entry w)"
    then obtain p where p: "p \<in> set pre"
      and "name (bt_entry (snd p)) = name (bt_entry w)"
      by blast
    with same [of p] have "seenKey (bt_entry w) = seenKey (bt_entry (snd p))" by simp
    with p have "seenKey (bt_entry w) \<in> (\<lambda>p. seenKey (bt_entry (snd p))) ` set pre"
      by (rule_tac image_eqI)
    with sn show "seenKey (bt_entry w) \<in> seen st" by simp
  qed
  from bh bw(1) bnew have free: "block \<notin> blockHas st" by simp
  have c: "acceptStep st (block, w) =
           (if \<exists>p\<in>set pre. name (bt_entry (snd p)) = name (bt_entry w)
            then st\<lparr>blockHas := insert block (blockHas st)\<rparr>
            else st\<lparr>filtered := AList.update (bt_km w) (bt_entry w) (filtered st),
                    blockHas := insert block (blockHas st),
                    seen := insert (seenKey (bt_entry w)) (seen st)\<rparr>)"
    using free b by (simp add: acceptStep_def Let_def)
  have d: "pass3 towns summary kms st2 = foldl acceptStep (acceptStep st (block, w)) post"
    by (simp add: pass3_def assms(2,3))
  from a b c d show ?thesis by blast
qed

theorem town_winner_acceptance_witness:
  "forIn (collectTowns []
            [5 \<mapsto> \<lparr>type = Town, name = ''Neustadt''\<rparr>, 15 \<mapsto> \<lparr>type = Town, name = ''Neustadt''\<rparr>,
             25 \<mapsto> \<lparr>type = Town, name = ''Altdorf''\<rparr>]
            (blockHas initialState) [0, 5, 15, 25]) =
     [(0, \<lparr>bt_km = 5, bt_entry = \<lparr>type = Town, name = ''Neustadt''\<rparr>, bt_pop = Num 0\<rparr>)] @
     (1, \<lparr>bt_km = 15, bt_entry = \<lparr>type = Town, name = ''Neustadt''\<rparr>, bt_pop = Num 0\<rparr>) #
     [(2, \<lparr>bt_km = 25, bt_entry = \<lparr>type = Town, name = ''Altdorf''\<rparr>, bt_pop = Num 0\<rparr>)] \<and>
   acceptStep
     (foldl acceptStep initialState
        [(0, \<lparr>bt_km = 5, bt_entry = \<lparr>type = Town, name = ''Neustadt''\<rparr>, bt_pop = Num 0\<rparr>)])
     (1, \<lparr>bt_km = 15, bt_entry = \<lparr>type = Town, name = ''Neustadt''\<rparr>, bt_pop = Num 0\<rparr>) =
   \<lparr>filtered = [(5, \<lparr>type = Town, name = ''Neustadt''\<rparr>)], blockHas = {1, 0},
    seen = {''town|Neustadt''}\<rparr> \<and>
   filtered (pass3 []
      [5 \<mapsto> \<lparr>type = Town, name = ''Neustadt''\<rparr>, 15 \<mapsto> \<lparr>type = Town, name = ''Neustadt''\<rparr>,
       25 \<mapsto> \<lparr>type = Town, name = ''Altdorf''\<rparr>] [0, 5, 15, 25] initialState) =
   [(5, \<lparr>type = Town, name = ''Neustadt''\<rparr>), (25, \<lparr>type = Town, name = ''Altdorf''\<rparr>)]"
proof -
  let ?S = "[5 \<mapsto> \<lparr>type = Town, name = ''Neustadt''\<rparr>, 15 \<mapsto> \<lparr>type = Town, name = ''Neustadt''\<rparr>,
             25 \<mapsto> \<lparr>type = Town, name = ''Altdorf''\<rparr>]"
  let ?K = "[0, 5, 15, 25 :: int]"
  let ?w5 = "\<lparr>bt_km = 5, bt_entry = \<lparr>type = Town, name = ''Neustadt''\<rparr>, bt_pop = Num 0\<rparr>"
  let ?w15 = "\<lparr>bt_km = 15, bt_entry = \<lparr>type = Town, name = ''Neustadt''\<rparr>, bt_pop = Num 0\<rparr>"
  let ?w25 = "\<lparr>bt_km = 25, bt_entry = \<lparr>type = Town, name = ''Altdorf''\<rparr>, bt_pop = Num 0\<rparr>"
  have u: "\<not> unnamed \<lparr>type = Town, name = ''Neustadt''\<rparr>" "\<not> unnamed \<lparr>type = Town, name = ''Altdorf''\<rparr>"
    by (simp_all add: unnamed_def toLowerCase_def toLowerChar_def)
  have st2: "pass2 ?S ?K (pass1 ?S ?K initialState) = initialState"
    by (simp add: pass1_def pass2_def pass1Step_def pass2Step_def u)
  have ws: "forIn (collectTowns [] ?S (blockHas initialState) ?K) = [(0, ?w5)] @ (1, ?w15) # [(2, ?w25)]"
    by (simp add: collectTowns_def collectStep_def forIn_def initialState_def blockOf_def u
        findTown_def populationOf_def)
  have ws': "forIn (collectTowns [] ?S {} ?K) = [(0, ?w5)] @ (1, ?w15) # [(2, ?w25)]"
    using ws by (simp add: initialState_def)
  from town_winner_acceptance [where summary = ?S and kms = ?K and towns = "[]"
      and pre = "[(0, ?w5)]" and block = 1 and w = ?w15 and post = "[(2, ?w25)]",
      OF refl _ refl, unfolded st2, OF ws]
  show ?thesis
    by (simp add: ws' acceptStep_def initialState_def seenKey_def)
qed

lemma populationOf_examples:
  "populationOf None = Num 0"
  "populationOf (Some \<lparr>el_lat = la, el_lon = lo, el_center = c, el_tags = None\<rparr>) = Num 0"
  "populationOf (Some \<lparr>el_lat = la, el_lon = lo, el_center = c,
     el_tags = Some \<lparr>mountain_pass = m, waterway = w, place = p, tag_name = n,
                     population = None\<rparr>\<rparr>) = Num 0"
  "populationOf (Some \<lparr>el_lat = la, el_lon = lo, el_center = c,
     el_tags = Some \<lparr>mountain_pass = m, waterway = w, place = p, tag_name = n,
                     population = Some ''12,000''\<rparr>\<rparr>) = Num 12000"
  "populationOf (Some \<lparr>el_lat = la, el_lon = lo, el_center = c,
     el_tags = Some \<lparr>mountain_pass = m, waterway = w, place = p, tag_name = n,
                     population = Some ''unknown''\<rparr>\<rparr>) = NaN"
  by (simp_all add: populationOf_def parseInt_def stripNonDigits_def digitValue_def)

text \<open>
  Claim C4 at a population without digits. Block 1 has the towns \<open>Aville\<close> (km 11,
  population \<open>unknown\<close>) and \<open>Bigtown\<close> (km 12, population \<open>12,000\<close>). The first parses
  to \<^verbatim>\<open>NaN\<close>, not to zero; no later population compares greater than \<^verbatim>\<open>NaN\<close>, so
  \<open>Aville\<close> wins the block.
\<close>

theorem unparseable_population_wins_block:
  "populationOf (findTown
     [\<lparr>el_lat = Some 46.5, el_lon = Some 8.1, el_center = None,
       el_tags = Some \<lparr>mountain_pass = None, waterway = None, place = Some ''village'',
                       tag_name = Some ''Aville'', population = Some ''unknown''\<rparr>\<rparr>,
      \<lparr>el_lat = Some 46.5, el_lon = Some 8.2, el_center = None,
       el_tags = Some \<lparr>mountain_pass = None, waterway = None, place = Some ''town'',
                       tag_name = Some ''Bigtown'', population = Some ''12,000''\<rparr>\<rparr>]
     ''Aville'') = NaN \<and>
   filterPipeline
     [\<lparr>el_lat = Some 46.5, el_lon = Some 8.1, el_center = None,
       el_tags = Some \<lparr>mountain_pass = None, waterway = None, place = Some ''village'',
                       tag_name = Some ''Aville'', population = Some ''unknown''\<rparr>\<rparr>,
      \<lparr>el_lat = Some 46.5, el_lon = Some 8.2, el_center = None,
       el_tags = Some \<lparr>mountain_pass = None, waterway = None, place = Some ''town'',
                       tag_name = Some ''Bigtown'', population = Some ''12,000''\<rparr>\<rparr>]
     [11 \<mapsto> \<lparr>type = Town, name = ''Aville''\<rparr>, 12 \<mapsto> \<lparr>type = Town, name = ''Bigtown''\<rparr>]
     [0, 11, 12] = [(11, \<lparr>type = Town, name = ''Aville''\<rparr>)]"
proof -
  have u: "\<not> unnamed \<lparr>type = Town, name = ''Aville''\<rparr>" "\<not> unnamed \<lparr>type = Town, name = ''Bigtown''\<rparr>"
    by (simp_all add: unnamed_def toLowerCase_def toLowerChar_def)
  show ?thesis
    by (simp add: filterPipeline_def pass1_def pass2_def pass3_def pass1Step_def pass2Step_def
      collectTowns_def collectStep_def forIn_def acceptStep_def initialState_def blockOf_def
      u seenKey_def collapse_def filteredKms_def findTown_def str_or_def
      populationOf_def parseInt_def stripNonDigits_def digitValue_def)
qed

end
